theory Spec2Isabelle
  imports Complex_Main "HOL-Library.Multiset"
begin

section \<open>The collaborators of the schedulers\<close>

text \<open>
  The module \<^verbatim>\<open>scheduler.py\<close> drives objects it does not define: components (with the
  methods \<^verbatim>\<open>input(time)\<close>, \<^verbatim>\<open>fire()\<close>, \<^verbatim>\<open>output(time)\<close>), the wall clock read by
  \<^verbatim>\<open>current_time()\<close> of \<^verbatim>\<open>utils\<close>, \<^verbatim>\<open>time.sleep\<close> and \<^verbatim>\<open>queue.PriorityQueue\<close>.
  A Python \<^verbatim>\<open>float\<close> that is a number is idealised as a \<^typ>\<open>real\<close> throughout: sums and
  differences of times are exact.

  Components are objects shared by reference, so a scheduler holds component identities
  (\<open>cid\<close>) and the objects themselves live in a store.
\<close>

type_synonym cid = nat

text \<open>
  Modelled from the spec: the class \<^verbatim>\<open>Component\<close> (not in \<^verbatim>\<open>scheduler.py\<close>). The spec gives
  it the attributes \<^verbatim>\<open>offset\<close>, \<^verbatim>\<open>interval\<close> and \<^verbatim>\<open>last_input_time\<close>, which the schedulers
  only read. The fields of a component carry the prefix \<open>c_\<close> where a scheduler has a
  field of the same name.
\<close>

record Component =
  offset :: real
  c_interval :: real
  c_last_input_time :: real

text \<open>What the schedulers do to their environment, in the order they do it.\<close>

datatype call = Input cid real | Fire cid | Output cid real | Sleep real

record world =
  store :: "cid \<Rightarrow> Component"
  trace :: "call list"
  clock :: real

text \<open>
  Modelled from the spec: the three lifecycle hooks of a component. Every call is entered
  in the trace; \<^verbatim>\<open>input(time)\<close> records \<^verbatim>\<open>time\<close> as the component's
  \<^verbatim>\<open>last_input_time\<close>; \<^verbatim>\<open>offset\<close> and \<^verbatim>\<open>interval\<close> stay as they are. A hook that raises
  is outside the model.
\<close>

definition comp_input :: "real \<Rightarrow> cid \<Rightarrow> world \<Rightarrow> world" where
  "comp_input t c w =
     w\<lparr>store := (store w)(c := (store w c)\<lparr>c_last_input_time := t\<rparr>),
       trace := trace w @ [Input c t]\<rparr>"

definition comp_fire :: "cid \<Rightarrow> world \<Rightarrow> world" where
  "comp_fire c w = w\<lparr>trace := trace w @ [Fire c]\<rparr>"

definition comp_output :: "real \<Rightarrow> cid \<Rightarrow> world \<Rightarrow> world" where
  "comp_output t c w = w\<lparr>trace := trace w @ [Output c t]\<rparr>"

text \<open>
  Modelled from the spec: \<^verbatim>\<open>current_time()\<close> of \<^verbatim>\<open>utils\<close> samples the wall clock;
  \<^verbatim>\<open>time.sleep(d)\<close> lets \<open>d\<close> seconds pass. Wall time that passes for any other reason
  (component work, a sleep that overshoots) is \<open>elapse\<close>.
\<close>

definition utils_current_time :: "world \<Rightarrow> real" where
  "utils_current_time w = clock w"

definition time_sleep :: "real \<Rightarrow> world \<Rightarrow> world" where
  "time_sleep d w = w\<lparr>trace := trace w @ [Sleep d], clock := clock w + d\<rparr>"

definition elapse :: "real \<Rightarrow> world \<Rightarrow> world" where
  "elapse d w = w\<lparr>clock := clock w + d\<rparr>"

text \<open>Python exceptions that the schedulers can raise.\<close>

datatype error = TypeError | AssertionError | AttributeError | OverflowError

section \<open>Numbers as arguments\<close>

text \<open>
  The interval handed to a \<^verbatim>\<open>RealTimeSyncScheduler\<close> is an \<^verbatim>\<open>int\<close> or a \<^verbatim>\<open>float\<close>, and
  \<^verbatim>\<open>float(interval)\<close> converts it. A float is a number (any real, by the idealisation
  above) or NaN; the infinite floats are left out, since every float field of the
  records below is a real number.
\<close>

datatype pyfloat = Finite real | NaN

datatype pyvalue = PyInt int | PyFloat pyfloat

text \<open>The comparison \<^verbatim>\<open>interval <= 0\<close>; it is false of NaN.\<close>

fun py_le_zero :: "pyvalue \<Rightarrow> bool" where
  "py_le_zero (PyInt n) = (n \<le> 0)"
| "py_le_zero (PyFloat (Finite x)) = (x \<le> 0)"
| "py_le_zero (PyFloat NaN) = False"

text \<open>
  \<^verbatim>\<open>float(n)\<close> of an \<^verbatim>\<open>int\<close> is the nearest number with 53 significant bits, a tie going
  to the even one, and raises \<^verbatim>\<open>OverflowError\<close> when that number is \<open>2 ^ 1024\<close> or more in
  magnitude. \<open>bit_length\<close> is \<^verbatim>\<open>int.bit_length\<close> on the magnitude.
\<close>

fun bit_length :: "nat \<Rightarrow> nat" where
  "bit_length n = (if n = 0 then 0 else Suc (bit_length (n div 2)))"

declare bit_length.simps [simp del]

definition round_half_even :: "nat \<Rightarrow> nat \<Rightarrow> nat" where
  "round_half_even p a =
     (if bit_length a \<le> p then a
      else let e = bit_length a - p; q = a div 2 ^ e; r = a mod 2 ^ e; h = 2 ^ (e - 1)
           in (if h < r \<or> (r = h \<and> odd q) then q + 1 else q) * 2 ^ e)"

definition float_value :: "int \<Rightarrow> real" where
  "float_value n =
     (if n < 0 then - real (round_half_even 53 (nat \<bar>n\<bar>))
      else real (round_half_even 53 (nat \<bar>n\<bar>)))"

definition float_of_int :: "int \<Rightarrow> error + pyfloat" where
  "float_of_int n =
     (if 2 ^ 1024 \<le> round_half_even 53 (nat \<bar>n\<bar>) then Inl OverflowError
      else Inr (Finite (float_value n)))"

fun py_float :: "pyvalue \<Rightarrow> error + pyfloat" where
  "py_float (PyInt n) = float_of_int n"
| "py_float (PyFloat x) = Inr x"

section \<open>Scheduler\<close>

record Scheduler =
  num_steps :: int
  current_time :: real
  components :: "cid list"

definition Scheduler_init :: Scheduler where
  "Scheduler_init = \<lparr>num_steps = 0, current_time = 0, components = []\<rparr>"

text \<open>
  \<^verbatim>\<open>reset\<close> and \<^verbatim>\<open>update\<close> are inherited, so they are defined on every extension of the
  record. The argument \<^verbatim>\<open>ca\<close> of \<^verbatim>\<open>update\<close> is represented by the list that
  \<^verbatim>\<open>ca.get_all_components()\<close> returns.
\<close>

definition Scheduler_reset :: "'a Scheduler_scheme \<Rightarrow> 'a Scheduler_scheme" where
  "Scheduler_reset self = self\<lparr>num_steps := 0, current_time := 0, components := []\<rparr>"

definition Scheduler_update :: "cid list \<Rightarrow> 'a Scheduler_scheme \<Rightarrow> 'a Scheduler_scheme" where
  "Scheduler_update ca self = self\<lparr>components := ca\<rparr>"

text \<open>The body of the abstract \<^verbatim>\<open>step\<close> is \<^verbatim>\<open>pass\<close>: it returns \<^verbatim>\<open>None\<close> and changes nothing.\<close>

definition Scheduler_step :: "world \<times> 'a Scheduler_scheme \<Rightarrow> world \<times> 'a Scheduler_scheme" where
  "Scheduler_step ws = ws"

section \<open>VirtualTimeSyncScheduler\<close>

record VirtualTimeSyncScheduler = Scheduler +
  interval :: real

definition VirtualTimeSyncScheduler_init :: "real \<Rightarrow> VirtualTimeSyncScheduler" where
  "VirtualTimeSyncScheduler_init i =
     \<lparr>num_steps = 0, current_time = 0, components = [], interval = i\<rparr>"

text \<open>The four statements of \<^verbatim>\<open>step\<close>, one function each.\<close>

definition sync_input_phase ::
  "world \<times> VirtualTimeSyncScheduler \<Rightarrow> world \<times> VirtualTimeSyncScheduler" where
  "sync_input_phase ws =
     (case ws of (w, self) \<Rightarrow> (fold (comp_input (current_time self)) (components self) w, self))"

definition sync_fire_phase ::
  "world \<times> VirtualTimeSyncScheduler \<Rightarrow> world \<times> VirtualTimeSyncScheduler" where
  "sync_fire_phase ws = (case ws of (w, self) \<Rightarrow> (fold comp_fire (components self) w, self))"

definition sync_advance ::
  "world \<times> VirtualTimeSyncScheduler \<Rightarrow> world \<times> VirtualTimeSyncScheduler" where
  "sync_advance ws =
     (case ws of (w, self) \<Rightarrow> (w, self\<lparr>current_time := current_time self + interval self\<rparr>))"

definition sync_output_phase ::
  "world \<times> VirtualTimeSyncScheduler \<Rightarrow> world \<times> VirtualTimeSyncScheduler" where
  "sync_output_phase ws =
     (case ws of (w, self) \<Rightarrow> (fold (comp_output (current_time self)) (components self) w, self))"

definition VirtualTimeSyncScheduler_step ::
  "world \<times> VirtualTimeSyncScheduler \<Rightarrow> real \<times> world \<times> VirtualTimeSyncScheduler" where
  "VirtualTimeSyncScheduler_step ws =
     (let ws' = sync_output_phase (sync_advance (sync_fire_phase (sync_input_phase ws)))
      in (current_time (snd ws'), ws'))"

text \<open>\<open>n\<close> calls of \<^verbatim>\<open>step\<close> in a row, with the values they return.\<close>

fun VirtualTimeSyncScheduler_steps ::
  "nat \<Rightarrow> world \<times> VirtualTimeSyncScheduler \<Rightarrow> real list \<times> world \<times> VirtualTimeSyncScheduler" where
  "VirtualTimeSyncScheduler_steps 0 ws = ([], ws)"
| "VirtualTimeSyncScheduler_steps (Suc n) ws =
     (case VirtualTimeSyncScheduler_step ws of (r, ws') \<Rightarrow>
        (case VirtualTimeSyncScheduler_steps n ws' of (rs, ws'') \<Rightarrow> (r # rs, ws'')))"

section \<open>VirtualTimeScheduler\<close>

record Event =
  time :: real
  component :: cid

definition Event_lt :: "Event \<Rightarrow> Event \<Rightarrow> bool" where
  "Event_lt self other = (time self < time other)"

text \<open>
  Modelled from the spec: \<^verbatim>\<open>queue.PriorityQueue\<close> (standard library) with entries compared
  by \<^verbatim>\<open>__lt__\<close> only. The queue is the list of its entries in the order they were put;
  \<^verbatim>\<open>get\<close> takes out an entry that no other entry is less than, the earliest put among
  such entries (the spec's tie-break), and blocks for ever on an empty queue, which is
  the result \<open>None\<close>.
\<close>

definition pq_put :: "Event \<Rightarrow> Event list \<Rightarrow> Event list" where
  "pq_put e q = q @ [e]"

fun pq_least :: "Event \<Rightarrow> Event list \<Rightarrow> Event" where
  "pq_least m [] = m"
| "pq_least m (e # es) = pq_least (if Event_lt e m then e else m) es"

definition pq_get :: "Event list \<Rightarrow> (Event \<times> Event list) option" where
  "pq_get q =
     (case q of
        [] \<Rightarrow> None
      | e # es \<Rightarrow> (let m = pq_least e es in Some (m, remove1 m q)))"

record VirtualTimeScheduler = Scheduler +
  event_queue :: "Event list"

definition VirtualTimeScheduler_init :: VirtualTimeScheduler where
  "VirtualTimeScheduler_init =
     \<lparr>num_steps = 0, current_time = 0, components = [], event_queue = []\<rparr>"

text \<open>The body of the loop of \<^verbatim>\<open>update\<close>, for one component.\<close>

definition prime_component ::
  "cid \<Rightarrow> world \<times> VirtualTimeScheduler \<Rightarrow> world \<times> VirtualTimeScheduler" where
  "prime_component c ws =
     (case ws of (w, self) \<Rightarrow>
        let w1 = comp_input (current_time self) c w;
            w2 = comp_fire c w1;
            e = \<lparr>time = offset (store w2 c) + c_last_input_time (store w2 c)
                         + c_interval (store w2 c),
                 component = c\<rparr>
        in (w2, self\<lparr>event_queue := pq_put e (event_queue self)\<rparr>))"

definition VirtualTimeScheduler_update ::
  "cid list \<Rightarrow> world \<times> VirtualTimeScheduler \<Rightarrow> world \<times> VirtualTimeScheduler" where
  "VirtualTimeScheduler_update ca ws =
     (case ws of (w, self) \<Rightarrow>
        let self1 = Scheduler_update ca self
        in fold prime_component (components self1) (w, self1))"

text \<open>\<^verbatim>\<open>step\<close> returns \<open>None\<close> when \<^verbatim>\<open>event_queue.get()\<close> blocks: the call never returns.\<close>

definition VirtualTimeScheduler_step ::
  "world \<times> VirtualTimeScheduler \<Rightarrow> (real \<times> world \<times> VirtualTimeScheduler) option" where
  "VirtualTimeScheduler_step ws =
     (case ws of (w, self) \<Rightarrow>
        (case pq_get (event_queue self) of
           None \<Rightarrow> None
         | Some (e, q) \<Rightarrow>
             let self1 = self\<lparr>event_queue := q\<rparr>;
                 self2 = self1\<lparr>current_time := time e\<rparr>;
                 c = component e;
                 w1 = comp_output (current_time self2) c w;
                 w2 = comp_input (current_time self2) c w1;
                 w3 = comp_fire c w2;
                 self3 = self2\<lparr>event_queue :=
                           pq_put \<lparr>time = current_time self2 + c_interval (store w3 c),
                                   component = c\<rparr> (event_queue self2)\<rparr>
             in Some (current_time self3, w3, self3)))"

fun VirtualTimeScheduler_steps ::
  "nat \<Rightarrow> world \<times> VirtualTimeScheduler \<Rightarrow>
     (real list \<times> world \<times> VirtualTimeScheduler) option" where
  "VirtualTimeScheduler_steps 0 ws = Some ([], ws)"
| "VirtualTimeScheduler_steps (Suc n) ws =
     (case VirtualTimeScheduler_step ws of
        None \<Rightarrow> None
      | Some (r, ws') \<Rightarrow>
          (case VirtualTimeScheduler_steps n ws' of
             None \<Rightarrow> None
           | Some (rs, ws'') \<Rightarrow> Some (r # rs, ws'')))"

section \<open>RealTimeSyncScheduler\<close>

text \<open>
  The attribute \<^verbatim>\<open>lagged\<close> is not assigned by \<^verbatim>\<open>__init__\<close>, so it may be absent (\<open>None\<close>).
  The attribute \<^verbatim>\<open>interval\<close> is the field \<open>rt_interval\<close>.
\<close>

record RealTimeSyncScheduler = Scheduler +
  last_input_time :: real
  last_output_time :: real
  last_spent :: real
  last_dt :: real
  rt_interval :: real
  lagged :: "bool option"

text \<open>
  \<^verbatim>\<open>set_interval\<close> converts with \<^verbatim>\<open>float\<close>, assigns, and asserts afterwards. When the call
  returns the result is \<open>Inr\<close> of the object. When it raises the result is \<open>Inl\<close> of the
  exception and of the object as the call leaves it: untouched when \<^verbatim>\<open>float\<close> raised,
  with the converted value in \<^verbatim>\<open>interval\<close> when the assertion failed. An object whose
  \<^verbatim>\<open>interval\<close> is NaN is not a value of the record, so that case leaves \<open>None\<close>. The
  comparison \<^verbatim>\<open>self.interval > 0.0\<close> is false of NaN.
\<close>

definition RealTimeSyncScheduler_set_interval ::
  "pyvalue \<Rightarrow> RealTimeSyncScheduler \<Rightarrow>
     (error \<times> RealTimeSyncScheduler option) + RealTimeSyncScheduler" where
  "RealTimeSyncScheduler_set_interval i self =
     (case py_float i of
        Inl e \<Rightarrow> Inl (e, Some self)
      | Inr NaN \<Rightarrow> Inl (AssertionError, None)
      | Inr (Finite x) \<Rightarrow>
          let self1 = self\<lparr>rt_interval := x\<rparr>
          in if rt_interval self1 > 0 then Inr self1 else Inl (AssertionError, Some self1))"

text \<open>
  The constructor. A record has a value in every field, so \<open>rt_interval\<close> holds 0 until
  \<^verbatim>\<open>set_interval\<close> makes the first assignment to it. When \<^verbatim>\<open>set_interval\<close> raises, no
  object is constructed.
\<close>

definition RealTimeSyncScheduler_init :: "pyvalue \<Rightarrow> error + RealTimeSyncScheduler" where
  "RealTimeSyncScheduler_init i =
     (let self = \<lparr>num_steps = 0, current_time = 0, components = [],
                   last_input_time = - 1, last_output_time = - 1, last_spent = - 1,
                   last_dt = - 1, rt_interval = 0, lagged = None\<rparr>
      in case RealTimeSyncScheduler_set_interval i self of
           Inr self' \<Rightarrow> Inr self'
         | Inl (e, left) \<Rightarrow> Inl e)"

text \<open>
  A call \<^verbatim>\<open>obj.m()\<close> passes \<^verbatim>\<open>obj\<close> as the only positional argument, and Python raises
  \<^verbatim>\<open>TypeError\<close> unless \<^verbatim>\<open>m\<close> was defined with exactly one parameter.
\<close>

definition bound_call :: "nat \<Rightarrow> ('s \<Rightarrow> error + 's) \<Rightarrow> 's \<Rightarrow> error + 's" where
  "bound_call nparams body obj = (if nparams = 1 then body obj else Inl TypeError)"

text \<open>\<^verbatim>\<open>reset\<close> is defined as \<^verbatim>\<open>def reset():\<close>, with no parameter.\<close>

definition RealTimeSyncScheduler_reset ::
  "RealTimeSyncScheduler \<Rightarrow> error + RealTimeSyncScheduler" where
  "RealTimeSyncScheduler_reset obj =
     bound_call 0
       (\<lambda>self. case RealTimeSyncScheduler_set_interval (PyFloat (Finite 1))
                         (Scheduler_reset self) of
                  Inr self' \<Rightarrow> Inr self'
                | Inl (e, left) \<Rightarrow> Inl e)
       obj"

text \<open>Reading the attribute \<^verbatim>\<open>lagged\<close>.\<close>

definition get_lagged :: "RealTimeSyncScheduler \<Rightarrow> error + bool" where
  "get_lagged self = (case lagged self of None \<Rightarrow> Inl AttributeError | Some b \<Rightarrow> Inr b)"

text \<open>
  The wall time that passes during one \<^verbatim>\<open>step\<close>: between the clock reads of lines 292
  and 301 (the input and fire loops), between those of lines 301 and 310 beyond the
  sleep that was asked for, and between those of lines 310 and 316 (the output loop).
\<close>

record timing =
  fire_elapsed :: real
  sleep_extra :: real
  output_elapsed :: real

text \<open>Lines 292 to 311 of \<^verbatim>\<open>step\<close>: up to the clock read that starts the output phase.\<close>

definition realtime_until_output ::
  "timing \<Rightarrow> world \<times> RealTimeSyncScheduler \<Rightarrow> world \<times> RealTimeSyncScheduler" where
  "realtime_until_output tm ws =
     (case ws of (w, self) \<Rightarrow>
        let self1 = self\<lparr>last_input_time := utils_current_time w\<rparr>;
            self2 = self1\<lparr>current_time := last_input_time self1\<rparr>;
            w1 = fold (comp_input (last_input_time self2)) (components self2) w;
            w2 = fold comp_fire (components self2) w1;
            w3 = elapse (fire_elapsed tm) w2;
            self3 = self2\<lparr>last_spent := utils_current_time w3 - last_input_time self2\<rparr>;
            dt = rt_interval self3 - last_spent self3;
            self4 = self3\<lparr>lagged := Some False\<rparr>;
            w4 = (if dt > 0 then time_sleep dt w3 else w3);
            self5 = (if dt > 0 then self4
                     else if dt < 0 then self4\<lparr>lagged := Some True\<rparr> else self4);
            w5 = elapse (sleep_extra tm) w4;
            self6 = self5\<lparr>last_output_time := utils_current_time w5\<rparr>;
            self7 = self6\<lparr>current_time := last_output_time self6\<rparr>
        in (w5, self7))"

text \<open>Lines 313 to 317.\<close>

definition realtime_output ::
  "timing \<Rightarrow> world \<times> RealTimeSyncScheduler \<Rightarrow> world \<times> RealTimeSyncScheduler" where
  "realtime_output tm ws =
     (case ws of (w, self) \<Rightarrow>
        let w1 = fold (comp_output (last_output_time self)) (components self) w;
            w2 = elapse (output_elapsed tm) w1;
            self1 = self\<lparr>last_output_time := utils_current_time w2\<rparr>;
            self2 = self1\<lparr>current_time := last_output_time self1\<rparr>
        in (w2, self2))"

definition RealTimeSyncScheduler_step ::
  "timing \<Rightarrow> world \<times> RealTimeSyncScheduler \<Rightarrow> real \<times> world \<times> RealTimeSyncScheduler" where
  "RealTimeSyncScheduler_step tm ws =
     (let ws' = realtime_output tm (realtime_until_output tm ws)
      in (current_time (snd ws'), ws'))"

text \<open>One call of \<^verbatim>\<open>step\<close> for each timing of the list.\<close>

fun RealTimeSyncScheduler_steps ::
  "timing list \<Rightarrow> world \<times> RealTimeSyncScheduler \<Rightarrow>
     real list \<times> world \<times> RealTimeSyncScheduler" where
  "RealTimeSyncScheduler_steps [] ws = ([], ws)"
| "RealTimeSyncScheduler_steps (tm # tms) ws =
     (case RealTimeSyncScheduler_step tm ws of (r, ws') \<Rightarrow>
        (case RealTimeSyncScheduler_steps tms ws' of (rs, ws'') \<Rightarrow> (r # rs, ws'')))"

section \<open>Concrete instances and auxiliary notions\<close>

text \<open>
  Component \<open>c\<close> has offset 0 and interval \<open>c + 1\<close>; nothing has been called yet and the
  wall clock shows 100.
\<close>

definition example_world :: world where
  "example_world =
     \<lparr>store = (\<lambda>c. \<lparr>offset = 0, c_interval = real (Suc c), c_last_input_time = 0\<rparr>),
      trace = [], clock = 100\<rparr>"

text \<open>
  A \<^verbatim>\<open>RealTimeSyncScheduler\<close> as \<^verbatim>\<open>RealTimeSyncScheduler(1.0)\<close> followed by an \<^verbatim>\<open>update\<close>
  that binds the components 0 and 1 leaves it.
\<close>

definition example_realtime :: RealTimeSyncScheduler where
  "example_realtime =
     \<lparr>num_steps = 0, current_time = 0, components = [0, 1],
      last_input_time = - 1, last_output_time = - 1, last_spent = - 1,
      last_dt = - 1, rt_interval = 1, lagged = None\<rparr>"

text \<open>The arguments of the \<^verbatim>\<open>time.sleep\<close> calls of a trace, in order.\<close>

fun sleeps :: "call list \<Rightarrow> real list" where
  "sleeps [] = []"
| "sleeps (Sleep d # cs) = d # sleeps cs"
| "sleeps (c # cs) = sleeps cs"


text \<open>
  A \<^verbatim>\<open>VirtualTimeScheduler\<close> at time 1 with component 0 bound, whose next event is at
  time 2.
\<close>

definition example_virtual :: VirtualTimeScheduler where
  "example_virtual =
     \<lparr>num_steps = 0, current_time = 1, components = [0],
      event_queue = [\<lparr>time = 2, component = 0\<rparr>]\<rparr>"

section \<open>Properties of VirtualTimeSyncScheduler\<close>

lemma trace_fold_comp_input:
  "trace (fold (comp_input t) cs w) = trace w @ map (\<lambda>c. Input c t) cs"
  by (induction cs arbitrary: w) (simp_all add: comp_input_def)

lemma trace_fold_comp_fire:
  "trace (fold comp_fire cs w) = trace w @ map Fire cs"
  by (induction cs arbitrary: w) (simp_all add: comp_fire_def)

lemma trace_fold_comp_output:
  "trace (fold (comp_output t) cs w) = trace w @ map (\<lambda>c. Output c t) cs"
  by (induction cs arbitrary: w) (simp_all add: comp_output_def)

lemma sync_step_scheduler:
  "snd (snd (VirtualTimeSyncScheduler_step (w, s))) = s\<lparr>current_time := current_time s + interval s\<rparr>"
  "fst (VirtualTimeSyncScheduler_step (w, s)) = current_time s + interval s"
  by (simp_all add: VirtualTimeSyncScheduler_step_def sync_output_phase_def sync_advance_def
      sync_fire_phase_def sync_input_phase_def Let_def)

lemma upt_0_Suc_shift: "[0..<Suc n] = 0 # map Suc [0..<n]"
  by (simp only: upt_conv_Cons [of 0 "Suc n"] zero_less_Suc map_Suc_upt)

lemma sync_steps_general:
  "VirtualTimeSyncScheduler_steps n (w, s) = (rs, w', s') \<Longrightarrow>
     s' = s\<lparr>current_time := current_time s + real n * interval s\<rparr> \<and>
     rs = map (\<lambda>k. current_time s + real (Suc k) * interval s) [0..<n]"
proof (induction n arbitrary: w s rs w' s')
  case 0
  then show ?case by simp
next
  case (Suc n)
  obtain r w1 s1 where st: "VirtualTimeSyncScheduler_step (w, s) = (r, w1, s1)"
    by (metis prod_cases3)
  obtain rs2 w2 s2 where rest: "VirtualTimeSyncScheduler_steps n (w1, s1) = (rs2, w2, s2)"
    by (metis prod_cases3)
  from st sync_step_scheduler [of w s]
  have s1: "s1 = s\<lparr>current_time := current_time s + interval s\<rparr>"
    and r: "r = current_time s + interval s" by simp_all
  from Suc.IH [OF rest]
  have s2: "s2 = s1\<lparr>current_time := current_time s1 + real n * interval s1\<rparr>"
    and rs2: "rs2 = map (\<lambda>k. current_time s1 + real (Suc k) * interval s1) [0..<n]"
    by simp_all
  from Suc.prems st rest have eq: "rs = r # rs2" "w' = w2" "s' = s2" by simp_all
  have a: "s' = s\<lparr>current_time := current_time s + real (Suc n) * interval s\<rparr>"
    using eq s2 s1 by (simp add: algebra_simps)
  have b: "rs2 = map (\<lambda>k. current_time s + real (Suc (Suc k)) * interval s) [0..<n]"
    unfolding rs2 s1 by (simp add: algebra_simps)
  have "map (\<lambda>k. current_time s + real (Suc k) * interval s) [0..<Suc n] = r # rs2"
    unfolding upt_0_Suc_shift b r by (simp add: comp_def)
  with a eq show ?case by simp
qed

text \<open>
  C6. A \<^verbatim>\<open>VirtualTimeSyncScheduler\<close> constructed with interval \<open>\<Delta>\<close> has, after \<open>N\<close>
  calls of \<^verbatim>\<open>step\<close>, \<^verbatim>\<open>current_time\<close> equal to \<open>N \<sqdot> \<Delta>\<close>, and the calls returned
  \<open>1 \<sqdot> \<Delta>\<close>, \<open>2 \<sqdot> \<Delta>\<close>, ..., \<open>N \<sqdot> \<Delta>\<close> in this order, in exact arithmetic and whatever
  components are bound.
\<close>

theorem sync_interval_accumulation:
  "current_time (snd (snd (VirtualTimeSyncScheduler_steps N
       (w, Scheduler_update ca (VirtualTimeSyncScheduler_init \<Delta>))))) = real N * \<Delta>
   \<and> fst (VirtualTimeSyncScheduler_steps N
       (w, Scheduler_update ca (VirtualTimeSyncScheduler_init \<Delta>)))
     = map (\<lambda>k. real (Suc k) * \<Delta>) [0..<N]"
proof -
  let ?s = "Scheduler_update ca (VirtualTimeSyncScheduler_init \<Delta>)"
  obtain rs w' s' where run: "VirtualTimeSyncScheduler_steps N (w, ?s) = (rs, w', s')"
    by (metis prod_cases3)
  have "current_time ?s = 0" "interval ?s = \<Delta>"
    by (simp_all add: Scheduler_update_def VirtualTimeSyncScheduler_init_def)
  with sync_steps_general [OF run] run show ?thesis by simp
qed

text \<open>
  C7. One \<^verbatim>\<open>step\<close> of a \<^verbatim>\<open>VirtualTimeSyncScheduler\<close> with any component list and the
  time \<open>t\<close> before the step: when the input and fire loops are done, the calls made are
  \<^verbatim>\<open>input(t)\<close> on every component in list order, then \<^verbatim>\<open>fire()\<close> on every component in
  list order, and \<^verbatim>\<open>current_time\<close> is still \<open>t\<close>; then the clock advances by the
  interval; the whole step adds to this \<^verbatim>\<open>output(t + interval)\<close> on every component in
  list order and returns \<open>t + interval\<close>.
\<close>

theorem sync_step_phase_order:
  "trace (fst (sync_fire_phase (sync_input_phase (w, s))))
     = trace w @ map (\<lambda>c. Input c (current_time s)) (components s) @ map Fire (components s)
   \<and> current_time (snd (sync_fire_phase (sync_input_phase (w, s)))) = current_time s
   \<and> VirtualTimeSyncScheduler_step (w, s)
       = (current_time s + interval s,
          sync_output_phase (sync_advance (sync_fire_phase (sync_input_phase (w, s)))))
   \<and> trace (fst (snd (VirtualTimeSyncScheduler_step (w, s))))
     = trace w @ map (\<lambda>c. Input c (current_time s)) (components s)
               @ map Fire (components s)
               @ map (\<lambda>c. Output c (current_time s + interval s)) (components s)"
  by (simp add: VirtualTimeSyncScheduler_step_def sync_output_phase_def sync_advance_def
      sync_fire_phase_def sync_input_phase_def Let_def
      trace_fold_comp_input trace_fold_comp_fire trace_fold_comp_output)

section \<open>Properties of reset\<close>

lemma Scheduler_reset_fields:
  "num_steps (Scheduler_reset s) = 0"
  "current_time (Scheduler_reset s) = 0"
  "components (Scheduler_reset s) = []"
  by (simp_all add: Scheduler_reset_def)

lemma Scheduler_reset_idempotent: "Scheduler_reset (Scheduler_reset s) = Scheduler_reset s"
  by (simp add: Scheduler_reset_def)

text \<open>
  C1. \<^verbatim>\<open>reset()\<close> on a \<^verbatim>\<open>RealTimeSyncScheduler\<close> does not succeed: the method is defined
  without the parameter \<^verbatim>\<open>self\<close>, so the call raises \<^verbatim>\<open>TypeError\<close> in whatever state the
  scheduler is, and nothing is reset. (For the base class and the two virtual-time
  schedulers \<^verbatim>\<open>reset\<close> is \<open>Scheduler_reset\<close>, which does what the lemmas above say.)
\<close>

theorem realtime_reset_raises:
  "RealTimeSyncScheduler_reset s = Inl TypeError"
  by (simp add: RealTimeSyncScheduler_reset_def bound_call_def)

section \<open>Properties of the conversion to float\<close>

lemma bit_length_0 [simp]: "bit_length 0 = 0"
  by (simp add: bit_length.simps)

lemma bit_length_upper: "a < 2 ^ bit_length a"
proof (induction a rule: bit_length.induct)
  case (1 n)
  show ?case
  proof (cases "n = 0")
    case True
    then show ?thesis by simp
  next
    case False
    with 1 have "n div 2 < 2 ^ bit_length (n div 2)" by simp
    then have "n < 2 * 2 ^ bit_length (n div 2)" by linarith
    with False show ?thesis by (subst bit_length.simps) simp
  qed
qed

lemma bit_length_lower: "0 < a \<Longrightarrow> 2 ^ (bit_length a - 1) \<le> a"
proof (induction a rule: bit_length.induct)
  case (1 n)
  then have n: "n \<noteq> 0" by simp
  show ?case
  proof (cases "n div 2 = 0")
    case True
    with n have "bit_length n = 1" by (subst bit_length.simps) simp
    with "1.prems" show ?thesis by simp
  next
    case False
    with 1 n have ih: "2 ^ (bit_length (n div 2) - 1) \<le> n div 2" by simp
    from False have "bit_length (n div 2) \<noteq> 0" by (subst bit_length.simps) simp
    then obtain k where k: "bit_length (n div 2) = Suc k" by (cases "bit_length (n div 2)") auto
    have "bit_length n = Suc (Suc k)" using n k by (subst bit_length.simps) simp
    moreover from ih k have "2 * 2 ^ k \<le> n" by simp
    ultimately show ?thesis by simp
  qed
qed

lemma bit_length_le_iff: "bit_length a \<le> p \<longleftrightarrow> a < 2 ^ p"
proof
  assume "bit_length a \<le> p"
  then have "(2::nat) ^ bit_length a \<le> 2 ^ p" by (simp add: power_increasing)
  with bit_length_upper [of a] show "a < 2 ^ p" by linarith
next
  assume lt: "a < 2 ^ p"
  show "bit_length a \<le> p"
  proof (rule ccontr)
    assume "\<not> bit_length a \<le> p"
    then have "p \<le> bit_length a - 1" and "bit_length a \<noteq> 0" by simp_all
    then have "(2::nat) ^ p \<le> 2 ^ (bit_length a - 1)" by (simp add: power_increasing)
    moreover have "0 < a" using \<open>bit_length a \<noteq> 0\<close> by (cases "a = 0") simp_all
    ultimately show False using bit_length_lower [of a] lt by linarith
  qed
qed

lemma bit_length_power2: "bit_length (2 ^ k) = Suc k"
proof -
  have "bit_length (2 ^ k) \<le> Suc k" by (simp add: bit_length_le_iff)
  moreover have "\<not> bit_length (2 ^ k) \<le> k" by (simp add: bit_length_le_iff)
  ultimately show ?thesis by simp
qed

lemma round_half_even_exact: "a < 2 ^ p \<Longrightarrow> round_half_even p a = a"
  by (simp add: round_half_even_def bit_length_le_iff)

lemma round_parts:
  assumes "\<not> bit_length a \<le> p" and "0 < p"
  defines "e \<equiv> bit_length a - p"
  shows "0 < e" and "2 ^ (p - 1) \<le> a div 2 ^ e" and "a div 2 ^ e < 2 ^ p"
    and "bit_length a = e + p"
proof -
  from assms(1) show e: "0 < e" and k: "bit_length a = e + p" by (simp_all add: e_def)
  have "a < 2 ^ (e + p)" using bit_length_upper [of a] k by simp
  then have "a < 2 ^ p * 2 ^ e" by (simp add: power_add mult.commute)
  then show "a div 2 ^ e < 2 ^ p" by (simp add: less_mult_imp_div_less)
  from assms(1) have "0 < a" by (cases "a = 0") simp_all
  from bit_length_lower [OF this] k have "2 ^ (e + p - 1) \<le> a" by simp
  moreover from \<open>0 < p\<close> have "e + p - 1 = (p - 1) + e" by simp
  ultimately have "2 ^ (p - 1) * 2 ^ e \<le> a" by (simp add: power_add)
  then show "2 ^ (p - 1) \<le> a div 2 ^ e"
    by (simp add: less_eq_div_iff_mult_less_eq)
qed

lemma round_half_even_pos: "0 < p \<Longrightarrow> 0 < round_half_even p a \<longleftrightarrow> 0 < a"
proof (cases "bit_length a \<le> p")
  case True
  then show ?thesis by (simp add: round_half_even_def)
next
  case False
  assume p: "0 < p"
  from False have a: "0 < a" by (cases "a = 0") simp_all
  from round_parts(2) [OF False p] have "0 < a div 2 ^ (bit_length a - p)"
    by (metis less_le_trans zero_less_numeral zero_less_power)
  with a False show ?thesis
    by (simp add: round_half_even_def Let_def)
qed

lemma round_half_even_overflow_iff:
  assumes p: "0 < p" and E: "p < E"
  shows "2 ^ E \<le> round_half_even p a \<longleftrightarrow> 2 ^ E - 2 ^ (E - Suc p) \<le> a"
proof (cases "bit_length a \<le> p")
  case True
  then have a: "a < 2 ^ p" by (simp add: bit_length_le_iff)
  from E have "(2::nat) ^ p \<le> 2 ^ (E - 1)" by (simp add: power_increasing)
  moreover have "(2::nat) ^ (E - Suc p) \<le> 2 ^ (E - 1)" by (simp add: power_increasing)
  moreover from E have "(2::nat) ^ E = 2 * 2 ^ (E - 1)" by (cases E) simp_all
  ultimately have "a < 2 ^ E - 2 ^ (E - Suc p)" and "a < 2 ^ E" using a by linarith+
  with True show ?thesis by (simp add: round_half_even_def)
next
  case False
  define e where "e = bit_length a - p"
  define B :: nat where "B = 2 ^ e"
  define Q :: nat where "Q = 2 ^ p"
  define h :: nat where "h = 2 ^ (e - 1)"
  define q where "q = a div B"
  define r where "r = a mod B"
  define q' where "q' = (if h < r \<or> (r = h \<and> odd q) then q + 1 else q)"
  from round_parts [OF False p] have e: "0 < e" and qlo: "2 ^ (p - 1) \<le> q" and qhi: "q < Q"
    and k: "bit_length a = e + p"
    by (simp_all add: e_def q_def B_def Q_def)
  have m: "round_half_even p a = q' * B"
    using False by (simp add: round_half_even_def Let_def e_def q_def r_def B_def h_def q'_def)
  have B: "B = 2 * h" using e by (cases e) (simp_all add: B_def h_def)
  have h: "0 < h" by (simp add: h_def)
  have a: "a = q * B + r" by (simp add: q_def r_def)
  have r: "r < B" by (simp add: r_def B_def)
  have QB: "Q * B = 2 ^ (e + p)" by (simp add: Q_def B_def power_add)
  have q'_bounds: "q \<le> q'" "q' \<le> q + 1" by (simp_all add: q'_def)
  consider "e + p < E" | "E < e + p" | "e + p = E" by linarith
  then show ?thesis
  proof cases
    case 1
    then have le: "(2::nat) ^ (e + p) \<le> 2 ^ (E - 1)" by (simp add: power_increasing)
    have half: "(2::nat) ^ (E - Suc p) \<le> 2 ^ (E - 1)" by (simp add: power_increasing)
    from E have dbl: "(2::nat) ^ E = 2 * 2 ^ (E - 1)" by (cases E) simp_all
    have "q' * B \<le> Q * B" using q'_bounds qhi by (simp add: mult_le_mono1)
    moreover have "0 < (2::nat) ^ (E - 1)" by simp
    ultimately have "\<not> 2 ^ E \<le> q' * B" using QB le dbl by linarith
    moreover have "a < 2 ^ (e + p)" using bit_length_upper [of a] k by simp
    with le half dbl have "\<not> 2 ^ E - 2 ^ (E - Suc p) \<le> a" by linarith
    ultimately show ?thesis by (simp add: m)
  next
    case 2
    then have "E \<le> (p - 1) + e" using p by simp
    then have "(2::nat) ^ E \<le> 2 ^ ((p - 1) + e)" by (simp add: power_increasing)
    also have "\<dots> = 2 ^ (p - 1) * B" by (simp add: B_def power_add)
    also have "\<dots> \<le> q * B" using qlo by (simp add: mult_le_mono1)
    finally have lo: "2 ^ E \<le> q * B" .
    have "q * B \<le> q' * B" using q'_bounds by (simp add: mult_le_mono1)
    with lo have "2 ^ E \<le> q' * B" by linarith
    moreover from lo a have "2 ^ E - 2 ^ (E - Suc p) \<le> a" by linarith
    ultimately show ?thesis by (simp add: m)
  next
    case 3
    then have "E - Suc p = e - 1" by simp
    then have thr: "(2::nat) ^ E - 2 ^ (E - Suc p) = Q * B - h"
      using 3 QB by (simp add: h_def)
    have QBE: "(2::nat) ^ E = Q * B" using 3 QB by simp
    have lhs: "Q * B \<le> q' * B \<longleftrightarrow> Q \<le> q'" by (simp add: B_def)
    have L: "2 ^ E \<le> round_half_even p a \<longleftrightarrow> Q \<le> q'"
      unfolding m QBE by (rule lhs)
    have R: "2 ^ E - 2 ^ (E - Suc p) \<le> a \<longleftrightarrow> Q * B - h \<le> a"
      unfolding thr ..
    show ?thesis
    proof (cases "q + 1 = Q")
      case True
      have "even Q" using p by (simp add: Q_def)
      with True have oddq: "odd q" by (metis even_add even_plus_one_iff)
      then have q'Q: "Q \<le> q' \<longleftrightarrow> h \<le> r" using True by (auto simp: q'_def)
      from True have "q * B = Q * B - B"
        by (metis add_diff_cancel_right' diff_mult_distrib mult_1)
      moreover have "B \<le> Q * B" using qhi by (cases Q) simp_all
      ultimately have "Q * B - h \<le> a \<longleftrightarrow> h \<le> r" using a B h r by linarith
      with q'Q show ?thesis unfolding L R by blast
    next
      case False
      with qhi have q2: "q + 2 \<le> Q" by simp
      then have "q' < Q" using q'_bounds by simp
      then have "\<not> Q \<le> q'" by simp
      moreover have "(q + 2) * B \<le> Q * B" using q2 by (rule mult_le_mono1)
      then have "q * B + 2 * B \<le> Q * B" by (simp add: algebra_simps)
      with a r B h have "\<not> Q * B - h \<le> a" by linarith
      ultimately show ?thesis unfolding L R by blast
    qed
  qed
qed

lemma float_of_int_overflow_iff:
  "2 ^ 1024 \<le> round_half_even 53 (nat \<bar>n\<bar>) \<longleftrightarrow> 2 ^ 1024 - 2 ^ 970 \<le> \<bar>n\<bar>"
proof -
  have "2 ^ 1024 \<le> round_half_even 53 (nat \<bar>n\<bar>)
      \<longleftrightarrow> 2 ^ 1024 - 2 ^ (1024 - Suc 53) \<le> nat \<bar>n\<bar>"
    by (rule round_half_even_overflow_iff) simp_all
  also have "\<dots> \<longleftrightarrow> int (2 ^ 1024 - 2 ^ 970) \<le> \<bar>n\<bar>"
    by (simp add: le_nat_iff)
  also have "int (2 ^ 1024 - 2 ^ 970) = 2 ^ 1024 - 2 ^ 970"
    by (simp add: of_nat_diff)
  finally show ?thesis .
qed

lemma float_of_int_cases:
  "float_of_int n =
     (if 2 ^ 1024 - 2 ^ 970 \<le> \<bar>n\<bar> then Inl OverflowError else Inr (Finite (float_value n)))"
  unfolding float_of_int_def float_of_int_overflow_iff ..

lemma float_value_sign: "0 < float_value n \<longleftrightarrow> 0 < n"
proof -
  have "0 < round_half_even 53 (nat \<bar>n\<bar>) \<longleftrightarrow> 0 < nat \<bar>n\<bar>"
    by (rule round_half_even_pos) simp
  then show ?thesis
    by (auto simp: float_value_def)
qed

lemma float_value_exact: "\<bar>n\<bar> < 2 ^ 53 \<Longrightarrow> float_value n = real_of_int n"
proof -
  assume "\<bar>n\<bar> < 2 ^ 53"
  then have "nat \<bar>n\<bar> < 2 ^ 53"
    by (simp add: nat_less_iff)
  then have r: "round_half_even 53 (nat \<bar>n\<bar>) = nat \<bar>n\<bar>"
    by (rule round_half_even_exact)
  show ?thesis
    unfolding float_value_def r by simp
qed

section \<open>Properties of RealTimeSyncScheduler\<close>

lemma clock_fold_comp_input: "clock (fold (comp_input t) cs w) = clock w"
  by (induction cs arbitrary: w) (simp_all add: comp_input_def)

lemma clock_fold_comp_fire: "clock (fold comp_fire cs w) = clock w"
  by (induction cs arbitrary: w) (simp_all add: comp_fire_def)

lemma clock_fold_comp_output: "clock (fold (comp_output t) cs w) = clock w"
  by (induction cs arbitrary: w) (simp_all add: comp_output_def)

lemmas clock_fold = clock_fold_comp_input clock_fold_comp_fire clock_fold_comp_output

lemmas trace_fold = trace_fold_comp_input trace_fold_comp_fire trace_fold_comp_output

lemma rt_until_scheduler:
  "snd (realtime_until_output tm (w, s)) =
     s\<lparr>current_time := clock w + max (rt_interval s) (fire_elapsed tm) + sleep_extra tm,
       last_input_time := clock w,
       last_output_time := clock w + max (rt_interval s) (fire_elapsed tm) + sleep_extra tm,
       last_spent := fire_elapsed tm,
       lagged := Some (rt_interval s < fire_elapsed tm)\<rparr>"
  by (cases "fire_elapsed tm < rt_interval s"; cases "fire_elapsed tm = rt_interval s")
     (simp_all add: realtime_until_output_def utils_current_time_def elapse_def time_sleep_def
        Let_def clock_fold)

lemma rt_until_world:
  "trace (fst (realtime_until_output tm (w, s))) =
     trace w @ map (\<lambda>c. Input c (clock w)) (components s) @ map Fire (components s)
     @ (if fire_elapsed tm < rt_interval s then [Sleep (rt_interval s - fire_elapsed tm)] else [])"
  "clock (fst (realtime_until_output tm (w, s))) =
     clock w + max (rt_interval s) (fire_elapsed tm) + sleep_extra tm"
  by (cases "fire_elapsed tm < rt_interval s";
      simp add: realtime_until_output_def utils_current_time_def elapse_def time_sleep_def
        Let_def clock_fold trace_fold)+

lemma rt_output_scheduler:
  "snd (realtime_output tm ws) =
     (snd ws)\<lparr>last_output_time := clock (fst ws) + output_elapsed tm,
       current_time := clock (fst ws) + output_elapsed tm\<rparr>"
  by (cases ws)
     (simp add: realtime_output_def utils_current_time_def elapse_def Let_def clock_fold)

lemma rt_output_world:
  "trace (fst (realtime_output tm ws)) =
     trace (fst ws) @ map (\<lambda>c. Output c (last_output_time (snd ws))) (components (snd ws))"
  "clock (fst (realtime_output tm ws)) = clock (fst ws) + output_elapsed tm"
  by (cases ws; simp add: realtime_output_def utils_current_time_def elapse_def Let_def
      clock_fold trace_fold)+

lemma rt_step_unfold:
  "snd (RealTimeSyncScheduler_step tm ws)
     = realtime_output tm (realtime_until_output tm ws)"
  "fst (RealTimeSyncScheduler_step tm ws)
     = current_time (snd (snd (RealTimeSyncScheduler_step tm ws)))"
  by (simp_all add: RealTimeSyncScheduler_step_def Let_def)

lemma rt_step_scheduler:
  "snd (snd (RealTimeSyncScheduler_step tm (w, s))) =
     s\<lparr>current_time := clock w + max (rt_interval s) (fire_elapsed tm) + sleep_extra tm
                        + output_elapsed tm,
       last_input_time := clock w,
       last_output_time := clock w + max (rt_interval s) (fire_elapsed tm) + sleep_extra tm
                        + output_elapsed tm,
       last_spent := fire_elapsed tm,
       lagged := Some (rt_interval s < fire_elapsed tm)\<rparr>"
  by (simp add: rt_step_unfold rt_output_scheduler rt_until_scheduler rt_until_world)

lemma rt_step_trace:
  "trace (fst (snd (RealTimeSyncScheduler_step tm (w, s)))) =
    trace w @ map (\<lambda>c. Input c (clock w)) (components s) @ map Fire (components s)
     @ (if fire_elapsed tm < rt_interval s then [Sleep (rt_interval s - fire_elapsed tm)] else [])
     @ map (\<lambda>c. Output c (clock w + max (rt_interval s) (fire_elapsed tm) + sleep_extra tm))
         (components s)"
  by (simp add: rt_step_unfold rt_output_world rt_until_scheduler rt_until_world)

lemma rt_steps_two:
  "snd (snd (RealTimeSyncScheduler_steps [tm0, tm] ws))
     = snd (snd (RealTimeSyncScheduler_step tm
         (fst (snd (RealTimeSyncScheduler_step tm0 ws)),
          snd (snd (RealTimeSyncScheduler_step tm0 ws)))))"
  by (simp split: prod.splits)

lemma sleeps_append: "sleeps (xs @ ys) = sleeps xs @ sleeps ys"
  by (induction xs rule: sleeps.induct) simp_all

lemma sleeps_map:
  "sleeps (map (\<lambda>c. Input c t) cs) = []" "sleeps (map Fire cs) = []"
  "sleeps (map (\<lambda>c. Output c t) cs) = []"
  by (induction cs) simp_all

text \<open>
  C4. After any \<^verbatim>\<open>step\<close> of a \<^verbatim>\<open>RealTimeSyncScheduler\<close>, \<^verbatim>\<open>lagged\<close> is true if and only if
  the measured \<^verbatim>\<open>last_spent\<close> (the wall time from the first clock read to the end of the
  fire loop) is greater than \<^verbatim>\<open>interval\<close>. When \<^verbatim>\<open>lagged\<close> is set the step makes no call of
  \<^verbatim>\<open>time.sleep\<close> (nor when the two are equal; otherwise it makes one call, for the
  remaining time). The flag is recomputed by every step: after two steps it depends on
  the second one only.
\<close>

theorem realtime_lagged_iff:
  "lagged (snd (snd (RealTimeSyncScheduler_step tm (w, s))))
     = Some (rt_interval (snd (snd (RealTimeSyncScheduler_step tm (w, s))))
             < last_spent (snd (snd (RealTimeSyncScheduler_step tm (w, s)))))
   \<and> last_spent (snd (snd (RealTimeSyncScheduler_step tm (w, s)))) = fire_elapsed tm
   \<and> sleeps (drop (length (trace w)) (trace (fst (snd (RealTimeSyncScheduler_step tm (w, s))))))
     = (if lagged (snd (snd (RealTimeSyncScheduler_step tm (w, s)))) = Some True then []
        else if fire_elapsed tm = rt_interval s then []
        else [rt_interval s - fire_elapsed tm])
   \<and> lagged (snd (snd (RealTimeSyncScheduler_steps [tm0, tm] (w, s))))
     = Some (rt_interval s < fire_elapsed tm)"
proof (intro conjI)
  show "lagged (snd (snd (RealTimeSyncScheduler_step tm (w, s))))
     = Some (rt_interval (snd (snd (RealTimeSyncScheduler_step tm (w, s))))
             < last_spent (snd (snd (RealTimeSyncScheduler_step tm (w, s)))))"
    by (simp add: rt_step_scheduler)
  show "last_spent (snd (snd (RealTimeSyncScheduler_step tm (w, s)))) = fire_elapsed tm"
    by (simp add: rt_step_scheduler)
  show "sleeps (drop (length (trace w)) (trace (fst (snd (RealTimeSyncScheduler_step tm (w, s))))))
     = (if lagged (snd (snd (RealTimeSyncScheduler_step tm (w, s)))) = Some True then []
        else if fire_elapsed tm = rt_interval s then []
        else [rt_interval s - fire_elapsed tm])"
    by (simp add: rt_step_scheduler rt_step_trace sleeps_append sleeps_map)
  show "lagged (snd (snd (RealTimeSyncScheduler_steps [tm0, tm] (w, s))))
     = Some (rt_interval s < fire_elapsed tm)"
    by (simp only: rt_steps_two rt_step_scheduler) simp
qed

text \<open>
  C5, as the claim states it, fails: the time from the start of the input phase to the
  start of the output phase can exceed \<^verbatim>\<open>interval\<close> while \<^verbatim>\<open>lagged\<close> is false. With
  interval 1, components that take no time and a sleep that returns 5 seconds late, the
  two phases start 6 seconds apart and \<^verbatim>\<open>lagged\<close> is false.
\<close>

theorem realtime_longer_without_lag:
  "\<not> (rt_interval example_realtime
        < last_output_time (snd (realtime_until_output
              \<lparr>fire_elapsed = 0, sleep_extra = 5, output_elapsed = 0\<rparr>
              (example_world, example_realtime)))
          - last_input_time (snd (realtime_until_output
              \<lparr>fire_elapsed = 0, sleep_extra = 5, output_elapsed = 0\<rparr>
              (example_world, example_realtime)))
      \<longrightarrow> lagged (snd (snd (RealTimeSyncScheduler_step
              \<lparr>fire_elapsed = 0, sleep_extra = 5, output_elapsed = 0\<rparr>
              (example_world, example_realtime)))) = Some True)"
  by (simp add: rt_until_scheduler rt_step_scheduler example_realtime_def)

text \<open>
  C5, amended. With a wall clock that does not run backwards (the sleep takes at least
  the time asked for, the output loop takes no negative time), in every \<^verbatim>\<open>step\<close> the
  clock read that starts the output phase is at least \<^verbatim>\<open>interval\<close> later than the one
  that starts the input phase: it is later by the larger of \<^verbatim>\<open>interval\<close> and
  \<^verbatim>\<open>last_spent\<close>, plus whatever the sleep overshoots. The same bound holds for the fields
  \<^verbatim>\<open>last_input_time\<close> and \<^verbatim>\<open>last_output_time\<close> as the step leaves them. \<^verbatim>\<open>lagged\<close> is set
  by that step exactly when \<^verbatim>\<open>last_spent\<close> exceeds \<^verbatim>\<open>interval\<close>, and then the distance is
  greater than \<^verbatim>\<open>interval\<close>.
\<close>

theorem realtime_minimum_spacing:
  assumes "0 \<le> sleep_extra tm" and "0 \<le> output_elapsed tm"
  shows "last_output_time (snd (realtime_until_output tm (w, s)))
           - last_input_time (snd (realtime_until_output tm (w, s)))
         = max (rt_interval s) (last_spent (snd (snd (RealTimeSyncScheduler_step tm (w, s)))))
           + sleep_extra tm
     \<and> rt_interval s \<le> last_output_time (snd (realtime_until_output tm (w, s)))
           - last_input_time (snd (realtime_until_output tm (w, s)))
     \<and> rt_interval s \<le> last_output_time (snd (snd (RealTimeSyncScheduler_step tm (w, s))))
           - last_input_time (snd (snd (RealTimeSyncScheduler_step tm (w, s))))
     \<and> lagged (snd (snd (RealTimeSyncScheduler_step tm (w, s))))
         = Some (rt_interval s < last_spent (snd (snd (RealTimeSyncScheduler_step tm (w, s)))))
     \<and> (lagged (snd (snd (RealTimeSyncScheduler_step tm (w, s)))) = Some True \<longrightarrow>
         rt_interval s < last_output_time (snd (realtime_until_output tm (w, s)))
           - last_input_time (snd (realtime_until_output tm (w, s))))"
  using assms by (simp add: rt_step_scheduler rt_until_scheduler) (simp add: max_def)

theorem realtime_minimum_spacing_witness:
  "(0::real) \<le> sleep_extra \<lparr>fire_elapsed = 3, sleep_extra = 1 / 2, output_elapsed = 2\<rparr>
   \<and> (0::real) \<le> output_elapsed \<lparr>fire_elapsed = 3, sleep_extra = 1 / 2, output_elapsed = 2\<rparr>
   \<and> last_output_time (snd (realtime_until_output
          \<lparr>fire_elapsed = 3, sleep_extra = 1 / 2, output_elapsed = 2\<rparr>
          (example_world, example_realtime)))
      - last_input_time (snd (realtime_until_output
          \<lparr>fire_elapsed = 3, sleep_extra = 1 / 2, output_elapsed = 2\<rparr>
          (example_world, example_realtime)))
      = 7 / 2
   \<and> lagged (snd (snd (RealTimeSyncScheduler_step
          \<lparr>fire_elapsed = 3, sleep_extra = 1 / 2, output_elapsed = 2\<rparr>
          (example_world, example_realtime)))) = Some True"
  using realtime_minimum_spacing
    [of "\<lparr>fire_elapsed = 3, sleep_extra = 1 / 2, output_elapsed = 2\<rparr>"
        example_world example_realtime]
  by (simp add: rt_step_scheduler example_realtime_def)

lemma set_interval_float:
  "RealTimeSyncScheduler_set_interval (PyFloat (Finite x)) s =
     (if x \<le> 0 then Inl (AssertionError, Some (s\<lparr>rt_interval := x\<rparr>))
      else Inr (s\<lparr>rt_interval := x\<rparr>))"
  "RealTimeSyncScheduler_set_interval (PyFloat NaN) s = Inl (AssertionError, None)"
  by (simp_all add: RealTimeSyncScheduler_set_interval_def Let_def)

lemma set_interval_int:
  "RealTimeSyncScheduler_set_interval (PyInt n) s =
     (if 2 ^ 1024 - 2 ^ 970 \<le> \<bar>n\<bar> then Inl (OverflowError, Some s)
      else if n \<le> 0 then Inl (AssertionError, Some (s\<lparr>rt_interval := float_value n\<rparr>))
      else Inr (s\<lparr>rt_interval := float_value n\<rparr>))"
  using float_value_sign [of n]
  by (simp add: RealTimeSyncScheduler_set_interval_def Let_def float_of_int_cases)

lemma init_by_set_interval:
  "RealTimeSyncScheduler_init i =
     (case RealTimeSyncScheduler_set_interval i
             \<lparr>num_steps = 0, current_time = 0, components = [],
              last_input_time = - 1, last_output_time = - 1, last_spent = - 1,
              last_dt = - 1, rt_interval = 0, lagged = None\<rparr> of
        Inr self' \<Rightarrow> Inr self'
      | Inl (e, left) \<Rightarrow> Inl e)"
  by (simp add: RealTimeSyncScheduler_init_def)

lemma init_Inr:
  "RealTimeSyncScheduler_init i = Inr s \<Longrightarrow>
     s = \<lparr>num_steps = 0, current_time = 0, components = [],
          last_input_time = - 1, last_output_time = - 1, last_spent = - 1,
          last_dt = - 1, rt_interval = rt_interval s, lagged = None\<rparr>"
  by (auto simp: RealTimeSyncScheduler_init_def RealTimeSyncScheduler_set_interval_def Let_def
      split: sum.splits pyfloat.splits if_splits)

text \<open>
  C9, as the claim states it, fails: configuration also fails for intervals that are not
  \<open>\<le> 0\<close>. \<^verbatim>\<open>float(interval)\<close> raises \<^verbatim>\<open>OverflowError\<close> for the int \<open>2 ^ 1024\<close>, and the
  assertion fails for NaN, of which \<^verbatim>\<open>interval <= 0\<close> is false.
\<close>

theorem realtime_positive_interval_refused:
  "RealTimeSyncScheduler_init (PyInt (2 ^ 1024)) = Inl OverflowError
   \<and> \<not> py_le_zero (PyInt (2 ^ 1024))
   \<and> RealTimeSyncScheduler_init (PyFloat NaN) = Inl AssertionError
   \<and> \<not> py_le_zero (PyFloat NaN)"
  by (simp add: init_by_set_interval set_interval_int set_interval_float)

text \<open>
  C9, amended. For an interval that is an int or a float (a finite number or NaN), the
  constructor of \<^verbatim>\<open>RealTimeSyncScheduler\<close> and \<^verbatim>\<open>set_interval\<close> fail exactly when the interval
  is \<open>\<le> 0\<close>, or is NaN, or is an int of \<open>2 ^ 1024 - 2 ^ 970\<close> or more. For an int of
  that magnitude or more (of either sign) \<^verbatim>\<open>float(interval)\<close> raises \<^verbatim>\<open>OverflowError\<close> and
  nothing is stored; in the other failing cases the assertion raises \<^verbatim>\<open>AssertionError\<close>
  after \<^verbatim>\<open>set_interval\<close> stored the converted value, unchanged (with NaN stored the object
  is not a value of the record). On success the interval stored is \<^verbatim>\<open>float(interval)\<close>:
  the float supplied, or the int supplied rounded to 53 significant bits (\<open>float_value\<close>),
  which is the int itself below \<open>2 ^ 53\<close>.
\<close>

theorem realtime_interval_validation:
  "((\<exists>e. RealTimeSyncScheduler_init i = Inl e) \<longleftrightarrow>
      py_le_zero i \<or> i = PyFloat NaN \<or> (\<exists>n. i = PyInt n \<and> 2 ^ 1024 - 2 ^ 970 \<le> n))
   \<and> ((\<exists>e. RealTimeSyncScheduler_set_interval i s = Inl e) \<longleftrightarrow>
      py_le_zero i \<or> i = PyFloat NaN \<or> (\<exists>n. i = PyInt n \<and> 2 ^ 1024 - 2 ^ 970 \<le> n))
   \<and> RealTimeSyncScheduler_set_interval (PyFloat (Finite x)) s =
       (if x \<le> 0 then Inl (AssertionError, Some (s\<lparr>rt_interval := x\<rparr>))
        else Inr (s\<lparr>rt_interval := x\<rparr>))
   \<and> RealTimeSyncScheduler_set_interval (PyFloat NaN) s = Inl (AssertionError, None)
   \<and> RealTimeSyncScheduler_set_interval (PyInt n) s =
       (if 2 ^ 1024 - 2 ^ 970 \<le> \<bar>n\<bar> then Inl (OverflowError, Some s)
        else if n \<le> 0 then Inl (AssertionError, Some (s\<lparr>rt_interval := float_value n\<rparr>))
        else Inr (s\<lparr>rt_interval := float_value n\<rparr>))
   \<and> RealTimeSyncScheduler_init (PyFloat (Finite x)) =
       (if x \<le> 0 then Inl AssertionError
        else Inr \<lparr>num_steps = 0, current_time = 0, components = [],
                  last_input_time = - 1, last_output_time = - 1, last_spent = - 1,
                  last_dt = - 1, rt_interval = x, lagged = None\<rparr>)
   \<and> RealTimeSyncScheduler_init (PyFloat NaN) = Inl AssertionError
   \<and> RealTimeSyncScheduler_init (PyInt n) =
       (if 2 ^ 1024 - 2 ^ 970 \<le> \<bar>n\<bar> then Inl OverflowError
        else if n \<le> 0 then Inl AssertionError
        else Inr \<lparr>num_steps = 0, current_time = 0, components = [],
                  last_input_time = - 1, last_output_time = - 1, last_spent = - 1,
                  last_dt = - 1, rt_interval = float_value n, lagged = None\<rparr>)
   \<and> (\<bar>n\<bar> < 2 ^ 53 \<longrightarrow> float_value n = real_of_int n)"
proof -
  have init_float: "RealTimeSyncScheduler_init (PyFloat (Finite x)) =
       (if x \<le> 0 then Inl AssertionError
        else Inr \<lparr>num_steps = 0, current_time = 0, components = [],
                  last_input_time = - 1, last_output_time = - 1, last_spent = - 1,
                  last_dt = - 1, rt_interval = x, lagged = None\<rparr>)"
    and init_nan: "RealTimeSyncScheduler_init (PyFloat NaN) = Inl AssertionError"
    by (simp_all add: init_by_set_interval set_interval_float)
  have init_int: "RealTimeSyncScheduler_init (PyInt n) =
       (if 2 ^ 1024 - 2 ^ 970 \<le> \<bar>n\<bar> then Inl OverflowError
        else if n \<le> 0 then Inl AssertionError
        else Inr \<lparr>num_steps = 0, current_time = 0, components = [],
                  last_input_time = - 1, last_output_time = - 1, last_spent = - 1,
                  last_dt = - 1, rt_interval = float_value n, lagged = None\<rparr>)"
    by (simp add: init_by_set_interval set_interval_int)
  have fails: "(\<exists>e. RealTimeSyncScheduler_set_interval i t = Inl e) \<longleftrightarrow>
      py_le_zero i \<or> i = PyFloat NaN \<or> (\<exists>n. i = PyInt n \<and> 2 ^ 1024 - 2 ^ 970 \<le> n)" for t
  proof (cases i)
    case (PyInt m)
    then show ?thesis
      by (simp add: set_interval_int)
  next
    case (PyFloat f)
    then show ?thesis
      by (cases f) (simp_all add: set_interval_float)
  qed
  have init: "(\<exists>e. RealTimeSyncScheduler_init i = Inl e) \<longleftrightarrow>
      (\<exists>e. RealTimeSyncScheduler_set_interval i
             \<lparr>num_steps = 0, current_time = 0, components = [],
              last_input_time = - 1, last_output_time = - 1, last_spent = - 1,
              last_dt = - 1, rt_interval = 0, lagged = None\<rparr> = Inl e)"
    by (auto simp: init_by_set_interval split: sum.splits)
  have exact: "\<bar>n\<bar> < 2 ^ 53 \<longrightarrow> float_value n = real_of_int n"
    by (simp add: float_value_exact)
  have "(\<exists>e. RealTimeSyncScheduler_init i = Inl e) \<longleftrightarrow>
      py_le_zero i \<or> i = PyFloat NaN \<or> (\<exists>n. i = PyInt n \<and> 2 ^ 1024 - 2 ^ 970 \<le> n)"
    unfolding init by (rule fails)
  with fails [of s] exact init_float init_nan init_int show ?thesis
    by (simp only: set_interval_float set_interval_int simp_thms)
qed

theorem realtime_interval_validation_witness:
  "\<bar>3 :: int\<bar> < 2 ^ 53
   \<and> RealTimeSyncScheduler_set_interval (PyInt 3) example_realtime
     = Inr (example_realtime\<lparr>rt_interval := 3\<rparr>)
   \<and> RealTimeSyncScheduler_init (PyFloat (Finite (1 / 2)))
     = Inr (example_realtime\<lparr>components := [], rt_interval := 1 / 2\<rparr>)
   \<and> RealTimeSyncScheduler_set_interval (PyInt (- 2)) example_realtime
     = Inl (AssertionError, Some (example_realtime\<lparr>rt_interval := - 2\<rparr>))"
proof -
  note t = realtime_interval_validation [of "PyFloat (Finite (1 / 2))" example_realtime "1 / 2" 3]
  note u = realtime_interval_validation [of "PyInt (- 2)" example_realtime 0 "- 2"]
  have fv3: "float_value 3 = 3" using t by simp
  have fv2: "float_value (- 2) = - 2" using u by simp
  have "RealTimeSyncScheduler_set_interval (PyInt 3) example_realtime
     = Inr (example_realtime\<lparr>rt_interval := 3\<rparr>)"
    by (simp add: set_interval_int fv3)
  moreover have "RealTimeSyncScheduler_init (PyFloat (Finite (1 / 2)))
     = Inr (example_realtime\<lparr>components := [], rt_interval := 1 / 2\<rparr>)"
    by (simp add: init_by_set_interval set_interval_float example_realtime_def)
  moreover have "RealTimeSyncScheduler_set_interval (PyInt (- 2)) example_realtime
     = Inl (AssertionError, Some (example_realtime\<lparr>rt_interval := - 2\<rparr>))"
    by (simp add: set_interval_int fv2)
  ultimately show ?thesis by simp
qed

lemma rt_steps_last_dt:
  "last_dt (snd (snd (RealTimeSyncScheduler_steps tms (w, s)))) = last_dt s"
proof (induction tms arbitrary: w s)
  case Nil
  show ?case by simp
next
  case (Cons tm tms)
  obtain r w1 s1 where st: "RealTimeSyncScheduler_step tm (w, s) = (r, w1, s1)"
    by (metis prod_cases3)
  have "last_dt s1 = last_dt s"
    using rt_step_scheduler [of tm w s] st by simp
  moreover have "last_dt (snd (snd (RealTimeSyncScheduler_steps tms (w1, s1)))) = last_dt s1"
    by (rule Cons.IH)
  ultimately show ?case
    using st by (cases "RealTimeSyncScheduler_steps tms (w1, s1)") simp
qed

text \<open>
  C10. On a \<^verbatim>\<open>RealTimeSyncScheduler\<close> that has just been constructed the attribute
  \<^verbatim>\<open>lagged\<close> is absent and reading it raises \<^verbatim>\<open>AttributeError\<close>; \<^verbatim>\<open>set_interval\<close> (whether
  it returns or raises) and \<^verbatim>\<open>update\<close> do not assign it, a \<^verbatim>\<open>step\<close> does. The field \<^verbatim>\<open>last_dt\<close> is \<open>-1\<close> after
  construction and still \<open>-1\<close> after any number of steps.
\<close>

theorem realtime_lagged_absent_last_dt_constant:
  assumes "RealTimeSyncScheduler_init i = Inr s"
  shows "lagged s = None \<and> get_lagged s = Inl AttributeError
     \<and> (\<forall>s'. RealTimeSyncScheduler_set_interval j s = Inr s' \<longrightarrow> lagged s' = None)
     \<and> (\<forall>e s'. RealTimeSyncScheduler_set_interval j s = Inl (e, Some s') \<longrightarrow> lagged s' = None)
     \<and> lagged (Scheduler_update ca s) = None
     \<and> get_lagged (snd (snd (RealTimeSyncScheduler_step tm (w, s))))
         = Inr (rt_interval s < fire_elapsed tm)
     \<and> last_dt s = - 1
     \<and> last_dt (snd (snd (RealTimeSyncScheduler_steps tms (w, Scheduler_update ca s)))) = - 1"
proof -
  from assms have s: "s = \<lparr>num_steps = 0, current_time = 0, components = [],
                last_input_time = - 1, last_output_time = - 1, last_spent = - 1,
                last_dt = - 1, rt_interval = rt_interval s, lagged = None\<rparr>"
    by (rule init_Inr)
  then have lg: "lagged s = None" and dt: "last_dt s = - 1"
    by (metis RealTimeSyncScheduler.select_convs(6), metis RealTimeSyncScheduler.select_convs(4))
  have "last_dt (Scheduler_update ca s) = - 1"
    by (simp add: dt Scheduler_update_def)
  then have "last_dt (snd (snd (RealTimeSyncScheduler_steps tms (w, Scheduler_update ca s)))) = - 1"
    by (simp add: rt_steps_last_dt)
  moreover have "get_lagged (snd (snd (RealTimeSyncScheduler_step tm (w, s))))
         = Inr (rt_interval s < fire_elapsed tm)"
    by (simp add: rt_step_scheduler get_lagged_def)
  moreover have "lagged s = None" "get_lagged s = Inl AttributeError" "last_dt s = - 1"
    "lagged (Scheduler_update ca s) = None"
    by (simp_all add: lg dt get_lagged_def Scheduler_update_def)
  moreover have "\<forall>s'. RealTimeSyncScheduler_set_interval j s = Inr s' \<longrightarrow> lagged s' = None"
    using lg
    by (auto simp: RealTimeSyncScheduler_set_interval_def Let_def
        split: sum.splits pyfloat.splits if_splits)
  moreover have "\<forall>e s'. RealTimeSyncScheduler_set_interval j s = Inl (e, Some s')
      \<longrightarrow> lagged s' = None"
    using lg
    by (auto simp: RealTimeSyncScheduler_set_interval_def Let_def
        split: sum.splits pyfloat.splits if_splits)
  ultimately show ?thesis by simp
qed

theorem realtime_lagged_absent_last_dt_constant_witness:
  "RealTimeSyncScheduler_init (PyFloat (Finite 1)) = Inr (example_realtime\<lparr>components := []\<rparr>)
   \<and> RealTimeSyncScheduler_set_interval (PyInt 2) (example_realtime\<lparr>components := []\<rparr>)
     = Inr (example_realtime\<lparr>components := [], rt_interval := 2\<rparr>)
   \<and> lagged (example_realtime\<lparr>components := [], rt_interval := 2\<rparr>) = None
   \<and> get_lagged (example_realtime\<lparr>components := []\<rparr>) = Inl AttributeError
   \<and> get_lagged (snd (snd (RealTimeSyncScheduler_step
         \<lparr>fire_elapsed = 3, sleep_extra = 0, output_elapsed = 0\<rparr>
         (example_world, example_realtime\<lparr>components := []\<rparr>)))) = Inr True
   \<and> last_dt (snd (snd (RealTimeSyncScheduler_steps
         [\<lparr>fire_elapsed = 3, sleep_extra = 0, output_elapsed = 0\<rparr>,
          \<lparr>fire_elapsed = 0, sleep_extra = 0, output_elapsed = 0\<rparr>]
         (example_world, Scheduler_update [0, 1] (example_realtime\<lparr>components := []\<rparr>))))) = - 1"
proof -
  have init: "RealTimeSyncScheduler_init (PyFloat (Finite 1))
      = Inr (example_realtime\<lparr>components := []\<rparr>)"
    by (simp add: RealTimeSyncScheduler_init_def RealTimeSyncScheduler_set_interval_def
        example_realtime_def)
  have set: "RealTimeSyncScheduler_set_interval (PyInt 2) (example_realtime\<lparr>components := []\<rparr>)
     = Inr (example_realtime\<lparr>components := [], rt_interval := 2\<rparr>)"
    using float_value_exact [of 2] by (simp add: set_interval_int)
  have "rt_interval (example_realtime\<lparr>components := []\<rparr>) = 1"
    by (simp add: example_realtime_def)
  with init set realtime_lagged_absent_last_dt_constant
    [OF init, where j = "PyInt 2" and tm = "\<lparr>fire_elapsed = 3, sleep_extra = 0, output_elapsed = 0\<rparr>"
       and w = example_world and ca = "[0, 1]"
       and tms = "[\<lparr>fire_elapsed = 3, sleep_extra = 0, output_elapsed = 0\<rparr>,
                   \<lparr>fire_elapsed = 0, sleep_extra = 0, output_elapsed = 0\<rparr>]"]
  show ?thesis
    by simp
qed

section \<open>Properties of VirtualTimeScheduler\<close>


lemma pq_least_mem: "pq_least m es \<in> set (m # es)"
  by (induction es arbitrary: m) (auto split: if_splits)

lemma pq_least_le_start: "time (pq_least m es) \<le> time m"
proof (induction es arbitrary: m)
  case Nil
  show ?case by simp
next
  case (Cons x xs)
  have "time (pq_least (if Event_lt x m then x else m) xs)
          \<le> time (if Event_lt x m then x else m)"
    by (rule Cons.IH)
  also have "\<dots> \<le> time m"
    by (simp add: Event_lt_def)
  finally show ?case by simp
qed

lemma pq_least_le_rest: "e \<in> set es \<Longrightarrow> time (pq_least m es) \<le> time e"
proof (induction es arbitrary: m)
  case Nil
  then show ?case by simp
next
  case (Cons x xs)
  show ?case
  proof (cases "e = x")
    case True
    have "time (pq_least (if Event_lt x m then x else m) xs)
            \<le> time (if Event_lt x m then x else m)"
      by (rule pq_least_le_start)
    also have "\<dots> \<le> time x"
      by (simp add: Event_lt_def)
    finally show ?thesis using True by simp
  next
    case False
    with Cons.prems have "e \<in> set xs" by simp
    then have "time (pq_least (if Event_lt x m then x else m) xs) \<le> time e"
      by (rule Cons.IH)
    then show ?thesis by simp
  qed
qed

lemma pq_least_le: "e \<in> set (m # es) \<Longrightarrow> time (pq_least m es) \<le> time e"
  using pq_least_le_start [of m es] pq_least_le_rest [of e es m] by auto

lemma pq_get_None: "pq_get q = None \<longleftrightarrow> q = []"
  by (simp add: pq_get_def Let_def split: list.splits)

lemma pq_get_Some:
  assumes "pq_get q = Some (m, q')"
  shows "m \<in> set q" and "q' = remove1 m q" and "\<And>e. e \<in> set q \<Longrightarrow> time m \<le> time e"
proof -
  from assms obtain x xs where q: "q = x # xs" and m: "m = pq_least x xs"
    and q': "q' = remove1 m q"
    by (auto simp: pq_get_def Let_def split: list.splits)
  show "m \<in> set q" unfolding q m by (rule pq_least_mem)
  show "q' = remove1 m q" by (rule q')
  show "time m \<le> time e" if "e \<in> set q" for e
    using that unfolding q m by (rule pq_least_le)
qed

lemma store_comp_input:
  "offset (store (comp_input t c w) d) = offset (store w d)"
  "c_interval (store (comp_input t c w) d) = c_interval (store w d)"
  "c_last_input_time (store (comp_input t c w) c) = t"
  by (simp_all add: comp_input_def)

lemma store_comp_fire: "store (comp_fire c w) = store w"
  by (simp add: comp_fire_def)

lemma store_comp_output: "store (comp_output t c w) = store w"
  by (simp add: comp_output_def)

lemma prime_component_result:
  "snd (prime_component c (w, s)) =
     s\<lparr>event_queue := event_queue s @
         [\<lparr>time = offset (store w c) + current_time s + c_interval (store w c), component = c\<rparr>]\<rparr>"
  "offset (store (fst (prime_component c (w, s))) d) = offset (store w d)"
  "c_interval (store (fst (prime_component c (w, s))) d) = c_interval (store w d)"
  by (simp_all add: prime_component_def Let_def pq_put_def store_comp_input store_comp_fire)

lemma fold_prime_component:
  "snd (fold prime_component cs (w, s)) =
     s\<lparr>event_queue := event_queue s @
         map (\<lambda>c. \<lparr>time = offset (store w c) + current_time s + c_interval (store w c),
                    component = c\<rparr>) cs\<rparr>
   \<and> (\<forall>d. offset (store (fst (fold prime_component cs (w, s))) d) = offset (store w d)
        \<and> c_interval (store (fst (fold prime_component cs (w, s))) d) = c_interval (store w d))"
proof (induction cs arbitrary: w s)
  case Nil
  show ?case by simp
next
  case (Cons c cs)
  obtain w1 s1 where p: "prime_component c (w, s) = (w1, s1)" by (cases "prime_component c (w, s)")
  from prime_component_result [of c w s] p
  have s1: "s1 = s\<lparr>event_queue := event_queue s @
         [\<lparr>time = offset (store w c) + current_time s + c_interval (store w c), component = c\<rparr>]\<rparr>"
    and w1: "\<And>d. offset (store w1 d) = offset (store w d)"
            "\<And>d. c_interval (store w1 d) = c_interval (store w d)"
    by simp_all
  from Cons.IH [of w1 s1] show ?case
    by (simp add: p w1) (simp add: s1)
qed

lemma update_result:
  "snd (VirtualTimeScheduler_update ca (w, s)) =
     s\<lparr>components := ca,
       event_queue := event_queue s @
         map (\<lambda>c. \<lparr>time = offset (store w c) + current_time s + c_interval (store w c),
                    component = c\<rparr>) ca\<rparr>"
  "offset (store (fst (VirtualTimeScheduler_update ca (w, s))) d) = offset (store w d)"
  "c_interval (store (fst (VirtualTimeScheduler_update ca (w, s))) d) = c_interval (store w d)"
  using fold_prime_component [of ca w "Scheduler_update ca s"]
  by (simp_all add: VirtualTimeScheduler_update_def Let_def Scheduler_update_def)

lemma step_None: "VirtualTimeScheduler_step (w, s) = None \<longleftrightarrow> event_queue s = []"
proof -
  have "VirtualTimeScheduler_step (w, s) = None \<longleftrightarrow> pq_get (event_queue s) = None"
    by (cases "pq_get (event_queue s)") (auto simp: VirtualTimeScheduler_step_def Let_def)
  then show ?thesis by (simp add: pq_get_None)
qed

lemma step_Some:
  assumes "VirtualTimeScheduler_step (w, s) = Some (r, w', s')"
  shows "\<exists>m. pq_get (event_queue s) = Some (m, remove1 m (event_queue s))
           \<and> r = time m
           \<and> s' = s\<lparr>current_time := time m,
                    event_queue := remove1 m (event_queue s) @
                      [\<lparr>time = time m + c_interval (store w (component m)),
                        component = component m\<rparr>]\<rparr>
           \<and> store w' = (store w)(component m := (store w (component m))\<lparr>c_last_input_time := time m\<rparr>)
           \<and> trace w' = trace w @ [Output (component m) (time m), Input (component m) (time m),
                                    Fire (component m)]"
proof -
  from assms obtain m q where g: "pq_get (event_queue s) = Some (m, q)"
    by (auto simp: VirtualTimeScheduler_step_def split: option.splits)
  then have q: "q = remove1 m (event_queue s)" by (rule pq_get_Some)
  from assms show ?thesis
    by (simp add: VirtualTimeScheduler_step_def g q Let_def pq_put_def comp_input_def
        comp_fire_def comp_output_def) auto
qed

lemma mset_map_remove1:
  "m \<in> set q \<Longrightarrow> add_mset (f m) (mset (map f (remove1 m q))) = mset (map f q)"
  by (induction q) auto

lemma step_queue:
  assumes "VirtualTimeScheduler_step (w, s) = Some (r, w', s')"
  shows "length (event_queue s') = length (event_queue s)"
    and "mset (map component (event_queue s')) = mset (map component (event_queue s))"
    and "components s' = components s"
    and "num_steps s' = num_steps s"
    and "event_queue s' \<noteq> []"
    and "current_time s' = r"
proof -
  from step_Some [OF assms] obtain m where
    g: "pq_get (event_queue s) = Some (m, remove1 m (event_queue s))" and r: "r = time m"
    and s': "s' = s\<lparr>current_time := time m,
                    event_queue := remove1 m (event_queue s) @
                      [\<lparr>time = time m + c_interval (store w (component m)),
                        component = component m\<rparr>]\<rparr>"
    by blast
  from g have m: "m \<in> set (event_queue s)" by (rule pq_get_Some)
  then have "event_queue s \<noteq> []" by auto
  with m show "length (event_queue s') = length (event_queue s)"
    by (simp add: s' length_remove1)
  show "mset (map component (event_queue s')) = mset (map component (event_queue s))"
    using mset_map_remove1 [OF m, of component] by (simp add: s')
  show "components s' = components s" "num_steps s' = num_steps s" "event_queue s' \<noteq> []"
    "current_time s' = r"
    by (simp_all add: s' r)
qed


lemma steps_returns:
  "event_queue s \<noteq> [] \<Longrightarrow> \<exists>rs w' s'. VirtualTimeScheduler_steps n (w, s) = Some (rs, w', s')"
proof (induction n arbitrary: w s)
  case 0
  show ?case by simp
next
  case (Suc n)
  from Suc.prems obtain r w1 s1 where st: "VirtualTimeScheduler_step (w, s) = Some (r, w1, s1)"
    using step_None [of w s] by (cases "VirtualTimeScheduler_step (w, s)") auto
  then have "event_queue s1 \<noteq> []" by (rule step_queue)
  from Suc.IH [OF this, of w1] obtain rs w' s' where
    "VirtualTimeScheduler_steps n (w1, s1) = Some (rs, w', s')" by blast
  with st show ?case by simp
qed

lemma steps_Suc_Some:
  assumes "VirtualTimeScheduler_steps (Suc n) (w, s) = Some (rs, w', s')"
  obtains r w1 s1 rs1 where "VirtualTimeScheduler_step (w, s) = Some (r, w1, s1)"
    and "VirtualTimeScheduler_steps n (w1, s1) = Some (rs1, w', s')" and "rs = r # rs1"
  using assms by (auto split: option.splits)

lemma steps_queue:
  "VirtualTimeScheduler_steps n (w, s) = Some (rs, w', s') \<Longrightarrow>
     length rs = n \<and> length (event_queue s') = length (event_queue s)
     \<and> mset (map component (event_queue s')) = mset (map component (event_queue s))
     \<and> components s' = components s \<and> num_steps s' = num_steps s"
proof (induction n arbitrary: w s rs)
  case 0
  then show ?case by simp
next
  case (Suc n)
  from Suc.prems obtain r w1 s1 rs1 where st: "VirtualTimeScheduler_step (w, s) = Some (r, w1, s1)"
    and rest: "VirtualTimeScheduler_steps n (w1, s1) = Some (rs1, w', s')" and rs: "rs = r # rs1"
    by (rule steps_Suc_Some)
  from Suc.IH [OF rest] step_queue [OF st] show ?case
    by (simp add: rs)
qed




lemma update_collapse:
  "VirtualTimeScheduler_update ca (w, s)
     = (fst (VirtualTimeScheduler_update ca (w, s)), snd (VirtualTimeScheduler_update ca (w, s)))"
  by simp

text \<open>
  C2, as the claim states it, fails: a second \<^verbatim>\<open>update\<close> does not discard the events of
  the first. After \<^verbatim>\<open>update\<close> with the component 0 and \<^verbatim>\<open>update\<close> with the component 1 the
  queue holds two events and one component is bound.
\<close>

theorem rebinding_keeps_old_events:
  "length (event_queue (snd (VirtualTimeScheduler_update [1]
       (VirtualTimeScheduler_update [0] (example_world, VirtualTimeScheduler_init)))))
   \<noteq> length (components (snd (VirtualTimeScheduler_update [1]
       (VirtualTimeScheduler_update [0] (example_world, VirtualTimeScheduler_init)))))"
  by (simp add: VirtualTimeScheduler_update_def prime_component_def Scheduler_update_def
      VirtualTimeScheduler_init_def pq_put_def Let_def)

lemma steps_from_update:
  assumes "event_queue s \<noteq> [] \<or> ca \<noteq> []"
  shows "\<exists>rs w' s'. VirtualTimeScheduler_steps n (VirtualTimeScheduler_update ca (w, s))
                    = Some (rs, w', s')
           \<and> length rs = n
           \<and> length (event_queue s') = length (event_queue s) + length ca
           \<and> mset (map component (event_queue s')) = mset (map component (event_queue s)) + mset ca
           \<and> components s' = ca"
proof -
  let ?u = "VirtualTimeScheduler_update ca (w, s)"
  have q: "event_queue (snd ?u) = event_queue s @
      map (\<lambda>c. \<lparr>time = offset (store w c) + current_time s + c_interval (store w c),
                 component = c\<rparr>) ca"
    and c: "components (snd ?u) = ca"
    by (simp_all add: update_result)
  from assms q have "event_queue (snd ?u) \<noteq> []" by auto
  from steps_returns [OF this, of n "fst ?u"]
  obtain rs w' s' where run: "VirtualTimeScheduler_steps n ?u = Some (rs, w', s')"
    by auto
  then have "VirtualTimeScheduler_steps n (fst ?u, snd ?u) = Some (rs, w', s')" by simp
  from steps_queue [OF this] q c
  have "length rs = n \<and> length (event_queue s') = length (event_queue s) + length ca
      \<and> mset (map component (event_queue s')) = mset (map component (event_queue s)) + mset ca
      \<and> components s' = ca"
    by (simp add: comp_def)
  with run show ?thesis by blast
qed

text \<open>
  C2, amended. \<^verbatim>\<open>update\<close> binds the components given and appends one event for each of
  them, in list order, to the queue, where every event queued before stays. On a new
  scheduler the queue then holds exactly one event per bound component. \<^verbatim>\<open>reset\<close> does not
  touch the queue. A \<^verbatim>\<open>step\<close> blocks exactly when the queue is empty; otherwise it returns,
  having taken one event out and put one event for the same component in, so the size
  of the queue stays. Hence after the first \<^verbatim>\<open>update\<close> with at least one component any
  number of steps return, and after them the queue holds exactly one event for each
  bound component; after a later \<^verbatim>\<open>update\<close> any number of steps return if an event was
  queued or a component is given, and after them the queue holds an event for each
  component of an event queued before and for each component newly bound.
\<close>

theorem event_queue_one_event_per_component:
  "event_queue (snd (VirtualTimeScheduler_update ca (w, s)))
     = event_queue s @
       map (\<lambda>c. \<lparr>time = offset (store w c) + current_time s + c_interval (store w c),
                  component = c\<rparr>) ca
   \<and> length (event_queue (snd (VirtualTimeScheduler_update ca (w, s))))
     = length (event_queue s) + length ca
   \<and> components (snd (VirtualTimeScheduler_update ca (w, s))) = ca
   \<and> map component (event_queue (snd (VirtualTimeScheduler_update ca (w, VirtualTimeScheduler_init))))
     = ca
   \<and> event_queue (Scheduler_reset s) = event_queue s
   \<and> (VirtualTimeScheduler_step (w, s) = None \<longleftrightarrow> event_queue s = [])
   \<and> (\<forall>r w' s'. VirtualTimeScheduler_step (w, s) = Some (r, w', s') \<longrightarrow>
        (\<exists>e. pq_get (event_queue s) = Some (e, remove1 e (event_queue s))
           \<and> event_queue s' = remove1 e (event_queue s) @
                [\<lparr>time = time e + c_interval (store w (component e)), component = component e\<rparr>])
        \<and> length (event_queue s') = length (event_queue s)
        \<and> components s' = components s)
   \<and> (ca \<noteq> [] \<longrightarrow>
        (\<exists>rs w' s'. VirtualTimeScheduler_steps n
                      (VirtualTimeScheduler_update ca (w, VirtualTimeScheduler_init))
                    = Some (rs, w', s')
           \<and> length rs = n
           \<and> length (event_queue s') = length ca
           \<and> mset (map component (event_queue s')) = mset ca
           \<and> components s' = ca))
   \<and> (event_queue s \<noteq> [] \<or> ca \<noteq> [] \<longrightarrow>
        (\<exists>rs w' s'. VirtualTimeScheduler_steps n (VirtualTimeScheduler_update ca (w, s))
                    = Some (rs, w', s')
           \<and> length rs = n
           \<and> length (event_queue s') = length (event_queue s) + length ca
           \<and> mset (map component (event_queue s'))
               = mset (map component (event_queue s)) + mset ca
           \<and> components s' = ca))
   \<and> VirtualTimeScheduler_step (VirtualTimeScheduler_update [] (w, VirtualTimeScheduler_init))
     = None"
proof (intro conjI allI impI)
  show "event_queue (snd (VirtualTimeScheduler_update ca (w, s)))
     = event_queue s @
       map (\<lambda>c. \<lparr>time = offset (store w c) + current_time s + c_interval (store w c),
                  component = c\<rparr>) ca"
    by (simp add: update_result)
  show "length (event_queue (snd (VirtualTimeScheduler_update ca (w, s))))
     = length (event_queue s) + length ca"
    by (simp add: update_result)
  show "components (snd (VirtualTimeScheduler_update ca (w, s))) = ca"
    by (simp add: update_result)
  show "map component (event_queue (snd (VirtualTimeScheduler_update ca
          (w, VirtualTimeScheduler_init)))) = ca"
    by (simp add: update_result VirtualTimeScheduler_init_def comp_def)
  show "event_queue (Scheduler_reset s) = event_queue s"
    by (simp add: Scheduler_reset_def)
  show "VirtualTimeScheduler_step (w, s) = None \<longleftrightarrow> event_queue s = []"
    by (rule step_None)
next
  fix r w' s'
  assume st: "VirtualTimeScheduler_step (w, s) = Some (r, w', s')"
  from step_Some [OF st]
  show "\<exists>e. pq_get (event_queue s) = Some (e, remove1 e (event_queue s))
           \<and> event_queue s' = remove1 e (event_queue s) @
                [\<lparr>time = time e + c_interval (store w (component e)), component = component e\<rparr>]"
    by auto
  from st show "length (event_queue s') = length (event_queue s)"
    by (rule step_queue)
  from st show "components s' = components s"
    by (rule step_queue)
next
  assume ne: "ca \<noteq> []"
  then have "event_queue VirtualTimeScheduler_init \<noteq> [] \<or> ca \<noteq> []" by simp
  from steps_from_update [OF this, of n w]
  show "\<exists>rs w' s'. VirtualTimeScheduler_steps n
                      (VirtualTimeScheduler_update ca (w, VirtualTimeScheduler_init))
                    = Some (rs, w', s')
           \<and> length rs = n
           \<and> length (event_queue s') = length ca
           \<and> mset (map component (event_queue s')) = mset ca
           \<and> components s' = ca"
    by (simp add: VirtualTimeScheduler_init_def)
next
  assume "event_queue s \<noteq> [] \<or> ca \<noteq> []"
  then show "\<exists>rs w' s'. VirtualTimeScheduler_steps n (VirtualTimeScheduler_update ca (w, s))
                    = Some (rs, w', s')
           \<and> length rs = n
           \<and> length (event_queue s') = length (event_queue s) + length ca
           \<and> mset (map component (event_queue s'))
               = mset (map component (event_queue s)) + mset ca
           \<and> components s' = ca"
    by (rule steps_from_update)
next
  have "event_queue (snd (VirtualTimeScheduler_update [] (w, VirtualTimeScheduler_init))) = []"
    by (simp add: update_result VirtualTimeScheduler_init_def)
  then show "VirtualTimeScheduler_step (VirtualTimeScheduler_update [] (w, VirtualTimeScheduler_init))
     = None"
    using step_None [of "fst (VirtualTimeScheduler_update [] (w, VirtualTimeScheduler_init))"
        "snd (VirtualTimeScheduler_update [] (w, VirtualTimeScheduler_init))"]
    by simp
qed

lemmas vts_eval = VirtualTimeScheduler_step_def VirtualTimeScheduler_update_def prime_component_def
  Scheduler_update_def VirtualTimeScheduler_init_def pq_put_def pq_get_def Event_lt_def Let_def
  comp_input_def comp_fire_def comp_output_def example_world_def

theorem event_queue_one_event_per_component_witness:
  "(\<exists>w' s'. VirtualTimeScheduler_step (example_world, example_virtual) = Some (2, w', s')
       \<and> event_queue s' = [\<lparr>time = 3, component = 0\<rparr>]
       \<and> length (event_queue s') = length (event_queue example_virtual))
   \<and> [0, 1] \<noteq> ([] :: cid list)
   \<and> (\<exists>rs w' s'. VirtualTimeScheduler_steps 3
          (VirtualTimeScheduler_update [0, 1] (example_world, VirtualTimeScheduler_init))
          = Some (rs, w', s')
        \<and> length (event_queue s') = 2 \<and> components s' = [0, 1])
   \<and> event_queue example_virtual \<noteq> []
   \<and> (\<exists>rs w' s'. VirtualTimeScheduler_steps 3
          (VirtualTimeScheduler_update [1] (example_world, example_virtual))
          = Some (rs, w', s')
        \<and> length (event_queue s') = 2 \<and> components s' = [1])"
proof -
  have "\<exists>w' s'. VirtualTimeScheduler_step (example_world, example_virtual) = Some (2, w', s')
       \<and> event_queue s' = [\<lparr>time = 3, component = 0\<rparr>]"
    by (simp add: vts_eval example_virtual_def)
  then obtain w' s' where st: "VirtualTimeScheduler_step (example_world, example_virtual) = Some (2, w', s')"
    and q: "event_queue s' = [\<lparr>time = 3, component = 0\<rparr>]" by blast
  note inst = event_queue_one_event_per_component [of "[0, 1]" example_world example_virtual 3]
  from inst st have "length (event_queue s') = length (event_queue example_virtual)"
    by blast
  with st q have a: "\<exists>w' s'. VirtualTimeScheduler_step (example_world, example_virtual) = Some (2, w', s')
       \<and> event_queue s' = [\<lparr>time = 3, component = 0\<rparr>]
       \<and> length (event_queue s') = length (event_queue example_virtual)" by blast
  from inst have "\<exists>rs w' s'. VirtualTimeScheduler_steps 3
          (VirtualTimeScheduler_update [0, 1] (example_world, VirtualTimeScheduler_init))
          = Some (rs, w', s')
        \<and> length (event_queue s') = 2 \<and> components s' = [0, 1]"
    by auto
  moreover have ne: "event_queue example_virtual \<noteq> []"
    by (simp add: example_virtual_def)
  moreover from event_queue_one_event_per_component [of "[1]" example_world example_virtual 3] ne
  have "\<exists>rs w' s'. VirtualTimeScheduler_steps 3
          (VirtualTimeScheduler_update [1] (example_world, example_virtual))
          = Some (rs, w', s')
        \<and> length (event_queue s') = 2 \<and> components s' = [1]"
    by (auto simp: example_virtual_def)
  ultimately show ?thesis using a by simp
qed



section \<open>The field num_steps\<close>

text \<open>
  C3, as the claim states it, fails: after construction and one \<^verbatim>\<open>step\<close> of a
  \<^verbatim>\<open>VirtualTimeSyncScheduler\<close> the field \<^verbatim>\<open>num_steps\<close> is not 1.
\<close>

theorem num_steps_not_incremented:
  "num_steps (snd (snd (VirtualTimeSyncScheduler_step
      (example_world, VirtualTimeSyncScheduler_init 1)))) \<noteq> 1"
  by (simp add: sync_step_scheduler VirtualTimeSyncScheduler_init_def)

lemma base_steps_num_steps:
  "(Scheduler_step ^^ N) ws = ws"
  by (induction N) (simp_all add: Scheduler_step_def)

lemma sync_steps_num_steps:
  "num_steps (snd (snd (VirtualTimeSyncScheduler_steps N (w, s)))) = num_steps s"
proof -
  obtain rs w' s' where run: "VirtualTimeSyncScheduler_steps N (w, s) = (rs, w', s')"
    by (metis prod_cases3)
  from sync_steps_general [OF run] run show ?thesis by simp
qed

lemma rt_steps_num_steps:
  "num_steps (snd (snd (RealTimeSyncScheduler_steps tms (w, s)))) = num_steps s"
proof (induction tms arbitrary: w s)
  case Nil
  show ?case by simp
next
  case (Cons tm tms)
  obtain r w1 s1 where st: "RealTimeSyncScheduler_step tm (w, s) = (r, w1, s1)"
    by (metis prod_cases3)
  have "num_steps s1 = num_steps s"
    using rt_step_scheduler [of tm w s] st by simp
  moreover have "num_steps (snd (snd (RealTimeSyncScheduler_steps tms (w1, s1)))) = num_steps s1"
    by (rule Cons.IH)
  ultimately show ?case
    using st by (cases "RealTimeSyncScheduler_steps tms (w1, s1)") simp
qed

text \<open>
  C3, amended. No \<^verbatim>\<open>step\<close> assigns \<^verbatim>\<open>num_steps\<close>: for every scheduler, after construction
  or \<^verbatim>\<open>reset()\<close> (and any \<^verbatim>\<open>update\<close>) followed by \<open>N\<close> calls of \<^verbatim>\<open>step\<close>, the field
  \<^verbatim>\<open>num_steps\<close> is 0. The steps of a \<^verbatim>\<open>VirtualTimeScheduler\<close> return when a component is
  bound. (\<^verbatim>\<open>reset()\<close> of a \<^verbatim>\<open>RealTimeSyncScheduler\<close> raises, so that scheduler is taken
  after construction only.)
\<close>

theorem num_steps_stays_zero:
  "num_steps (snd ((Scheduler_step ^^ N) (w, Scheduler_init))) = 0
   \<and> num_steps (snd ((Scheduler_step ^^ N) (w, Scheduler_reset s0))) = 0
   \<and> num_steps (snd (snd (VirtualTimeSyncScheduler_steps N
        (w, Scheduler_update ca (VirtualTimeSyncScheduler_init \<Delta>))))) = 0
   \<and> num_steps (snd (snd (VirtualTimeSyncScheduler_steps N
        (w, Scheduler_update ca (Scheduler_reset s1))))) = 0
   \<and> (\<forall>rs w' s'. VirtualTimeScheduler_steps N
          (VirtualTimeScheduler_update ca (w, VirtualTimeScheduler_init)) = Some (rs, w', s')
        \<longrightarrow> num_steps s' = 0)
   \<and> (\<forall>rs w' s'. VirtualTimeScheduler_steps N
          (VirtualTimeScheduler_update ca (w, Scheduler_reset s2)) = Some (rs, w', s')
        \<longrightarrow> num_steps s' = 0)
   \<and> (ca \<noteq> [] \<longrightarrow>
        (\<exists>rs w' s'. VirtualTimeScheduler_steps N
           (VirtualTimeScheduler_update ca (w, VirtualTimeScheduler_init)) = Some (rs, w', s')))
   \<and> (\<forall>s3. RealTimeSyncScheduler_init i = Inr s3 \<longrightarrow>
        num_steps (snd (snd (RealTimeSyncScheduler_steps tms (w, Scheduler_update ca s3)))) = 0)"
proof (intro conjI allI impI)
  show "num_steps (snd ((Scheduler_step ^^ N) (w, Scheduler_init))) = 0"
    by (simp add: base_steps_num_steps Scheduler_init_def)
  show "num_steps (snd ((Scheduler_step ^^ N) (w, Scheduler_reset s0))) = 0"
    by (simp add: base_steps_num_steps Scheduler_reset_def)
  show "num_steps (snd (snd (VirtualTimeSyncScheduler_steps N
        (w, Scheduler_update ca (VirtualTimeSyncScheduler_init \<Delta>))))) = 0"
    by (simp add: sync_steps_num_steps Scheduler_update_def VirtualTimeSyncScheduler_init_def)
  show "num_steps (snd (snd (VirtualTimeSyncScheduler_steps N
        (w, Scheduler_update ca (Scheduler_reset s1))))) = 0"
    by (simp add: sync_steps_num_steps Scheduler_update_def Scheduler_reset_def)
next
  fix rs w' s'
  assume "VirtualTimeScheduler_steps N
          (VirtualTimeScheduler_update ca (w, VirtualTimeScheduler_init)) = Some (rs, w', s')"
  then have "VirtualTimeScheduler_steps N
      (fst (VirtualTimeScheduler_update ca (w, VirtualTimeScheduler_init)),
       snd (VirtualTimeScheduler_update ca (w, VirtualTimeScheduler_init))) = Some (rs, w', s')"
    by simp
  from steps_queue [OF this] show "num_steps s' = 0"
    by (simp add: update_result VirtualTimeScheduler_init_def)
next
  fix rs w' s'
  assume "VirtualTimeScheduler_steps N
          (VirtualTimeScheduler_update ca (w, Scheduler_reset s2)) = Some (rs, w', s')"
  then have "VirtualTimeScheduler_steps N
      (fst (VirtualTimeScheduler_update ca (w, Scheduler_reset s2)),
       snd (VirtualTimeScheduler_update ca (w, Scheduler_reset s2))) = Some (rs, w', s')"
    by simp
  from steps_queue [OF this] show "num_steps s' = 0"
    by (simp add: update_result Scheduler_reset_def)
next
  assume "ca \<noteq> []"
  then have "event_queue (snd (VirtualTimeScheduler_update ca (w, VirtualTimeScheduler_init))) \<noteq> []"
    by (simp add: update_result)
  from steps_returns [OF this, of N "fst (VirtualTimeScheduler_update ca (w, VirtualTimeScheduler_init))"]
  show "\<exists>rs w' s'. VirtualTimeScheduler_steps N
           (VirtualTimeScheduler_update ca (w, VirtualTimeScheduler_init)) = Some (rs, w', s')"
    by simp
next
  fix s3
  assume "RealTimeSyncScheduler_init i = Inr s3"
  then have "s3 = \<lparr>num_steps = 0, current_time = 0, components = [],
          last_input_time = - 1, last_output_time = - 1, last_spent = - 1,
          last_dt = - 1, rt_interval = rt_interval s3, lagged = None\<rparr>"
    by (rule init_Inr)
  then have "num_steps s3 = 0"
    by (metis Scheduler.select_convs(1))
  then show "num_steps (snd (snd (RealTimeSyncScheduler_steps tms (w, Scheduler_update ca s3)))) = 0"
    by (simp add: rt_steps_num_steps Scheduler_update_def)
qed

theorem num_steps_stays_zero_witness:
  "(\<exists>w' s'. VirtualTimeScheduler_steps 3
        (VirtualTimeScheduler_update [0, 1] (example_world, VirtualTimeScheduler_init))
      = Some ([1, 2, 2], w', s') \<and> num_steps s' = 0)
   \<and> RealTimeSyncScheduler_init (PyFloat (Finite 1)) = Inr (example_realtime\<lparr>components := []\<rparr>)
   \<and> num_steps (snd (snd (RealTimeSyncScheduler_steps
        [\<lparr>fire_elapsed = 3, sleep_extra = 0, output_elapsed = 0\<rparr>,
         \<lparr>fire_elapsed = 0, sleep_extra = 0, output_elapsed = 0\<rparr>]
        (example_world, Scheduler_update [0, 1] (example_realtime\<lparr>components := []\<rparr>))))) = 0"
proof -
  have run: "\<exists>w' s'. VirtualTimeScheduler_steps 3
        (VirtualTimeScheduler_update [0, 1] (example_world, VirtualTimeScheduler_init))
      = Some ([1, 2, 2], w', s')"
    by (simp add: vts_eval eval_nat_numeral)
  have init: "RealTimeSyncScheduler_init (PyFloat (Finite 1))
      = Inr (example_realtime\<lparr>components := []\<rparr>)"
    by (simp add: RealTimeSyncScheduler_init_def RealTimeSyncScheduler_set_interval_def
        example_realtime_def)
  note inst = num_steps_stays_zero [where N = 3 and ca = "[0, 1]" and w = example_world
      and i = "PyFloat (Finite 1)"
      and tms = "[\<lparr>fire_elapsed = 3, sleep_extra = 0, output_elapsed = 0\<rparr>,
                  \<lparr>fire_elapsed = 0, sleep_extra = 0, output_elapsed = 0\<rparr>]"]
  from inst run have "\<exists>w' s'. VirtualTimeScheduler_steps 3
        (VirtualTimeScheduler_update [0, 1] (example_world, VirtualTimeScheduler_init))
      = Some ([1, 2, 2], w', s') \<and> num_steps s' = 0"
    by blast
  moreover from inst init have "num_steps (snd (snd (RealTimeSyncScheduler_steps
        [\<lparr>fire_elapsed = 3, sleep_extra = 0, output_elapsed = 0\<rparr>,
         \<lparr>fire_elapsed = 0, sleep_extra = 0, output_elapsed = 0\<rparr>]
        (example_world, Scheduler_update [0, 1] (example_realtime\<lparr>components := []\<rparr>))))) = 0"
    by blast
  ultimately show ?thesis using init by simp
qed

end
